theory Spec2Isabelle
  imports Main "HOL-Library.Word"
begin

unbundle bit_operations_syntax

section \<open>The shared-memory ring: data model\<close>

text \<open>
  The model follows \<^verbatim>\<open>shared_ring.h\<close> and the two versions of
  \<^verbatim>\<open>shared_ring.cpp\<close> in the repository (the annotated one under
  \<^verbatim>\<open>src/ipc/shared_ring.cpp\<close> and the earlier one in
  \<^verbatim>\<open>src/unnamed/part_001\<close>). Platform constants are those of 64-bit Linux,
  the only platform the README names: \<^verbatim>\<open>size_t\<close> and \<^verbatim>\<open>off_t\<close> have 64 bits,
  \<^verbatim>\<open>uint32_t\<close> is stored little-endian, \<^verbatim>\<open>SEM_VALUE_MAX\<close> is \<open>2^31 - 1\<close>.
\<close>

type_synonym byte = "8 word"
type_synonym u32 = "32 word"

text \<open>\<^verbatim>\<open>struct RingHeader\<close>; the 28 reserved bytes are never read or written.\<close>

record RingHeader =
  magic :: u32
  version :: u32
  slot_count :: u32
  slot_size :: u32
  head :: u32
  tail :: u32

text \<open>
  The kernel objects all processes share: the mapped region (the header, then the bytes
  of the slot area that starts at \<^verbatim>\<open>slots_start_\<close>) and the values of the three named
  semaphores.
\<close>

record ring_shm =
  hdr :: RingHeader
  slot_area :: "byte list"
  free_val :: nat
  filled_val :: nat
  mutex_val :: nat

text \<open>
  The per-process handle, \<^verbatim>\<open>class SharedRing\<close>. The descriptor and the pointers
  (\<^verbatim>\<open>shm_fd_\<close>, \<^verbatim>\<open>map_ptr_\<close>, \<^verbatim>\<open>hdr_\<close>, \<^verbatim>\<open>slots_start_\<close>, the three \<^verbatim>\<open>sem_t*\<close>)
  refer to the shared objects above and carry no data of their own. The members'
  names end in an underscore in the source; here a prime follows it.
\<close>

record SharedRing =
  shm_name_' :: string
  map_size_' :: nat
  slot_count_' :: u32
  slot_size_' :: u32
  owner_' :: bool
  sem_free_name_' :: string
  sem_filled_name_' :: string
  sem_mutex_name_' :: string

text \<open>
  What a call does: it returns a value, it never returns (a wait on a semaphore that
  nobody posts), or it leaves defined behaviour.
\<close>

datatype fault = DivByZero | OutOfBounds

datatype 'a outcome = Returns 'a | Blocks | Crashes fault

text \<open>Sequencing: the next statement runs only when the previous call has returned.\<close>

fun and_then :: "'a outcome \<Rightarrow> ('a \<Rightarrow> 'b outcome) \<Rightarrow> 'b outcome" where
  "and_then (Returns x) k = k x"
| "and_then Blocks k = Blocks"
| "and_then (Crashes c) k = Crashes c"

subsection \<open>Sizes and bytes\<close>

definition sizeof_RingHeader :: nat where
  "sizeof_RingHeader = 52"

definition sizeof_uint32 :: nat where
  "sizeof_uint32 = 4"

text \<open>Arithmetic in \<^verbatim>\<open>size_t\<close> wraps modulo \<open>2^64\<close>.\<close>

definition size_t :: "nat \<Rightarrow> nat" where
  "size_t n = n mod 2 ^ 64"

text \<open>\<^verbatim>\<open>memcpy(slot, &len, sizeof(uint32_t))\<close> and back: the four bytes of a \<^verbatim>\<open>uint32_t\<close>.\<close>

definition u32_bytes :: "u32 \<Rightarrow> byte list" where
  "u32_bytes w = [ucast w, ucast (drop_bit 8 w), ucast (drop_bit 16 w), ucast (drop_bit 24 w)]"

definition bytes_u32 :: "byte list \<Rightarrow> u32" where
  "bytes_u32 bs =
     ucast (bs ! 0) OR push_bit 8 (ucast (bs ! 1)) OR
     push_bit 16 (ucast (bs ! 2)) OR push_bit 24 (ucast (bs ! 3))"

text \<open>
  \<^verbatim>\<open>memcpy\<close> into and out of the slot area, at an offset from \<^verbatim>\<open>slots_start_\<close>.
  Both are used only after the caller has checked that the range lies inside the area.
\<close>

definition memcpy_to :: "byte list \<Rightarrow> nat \<Rightarrow> byte list \<Rightarrow> byte list" where
  "memcpy_to area off bs = take off area @ bs @ drop (off + length bs) area"

definition memcpy_from :: "byte list \<Rightarrow> nat \<Rightarrow> nat \<Rightarrow> byte list" where
  "memcpy_from area off n = take n (drop off area)"

text \<open>
  \<^verbatim>\<open>slots_start_ + (size_t)idx * (sizeof(uint32_t) + slot_size_)\<close>, as an offset from
  \<^verbatim>\<open>slots_start_\<close>.
\<close>

definition slot_offset :: "SharedRing \<Rightarrow> u32 \<Rightarrow> nat" where
  "slot_offset h idx = size_t (unat idx * size_t (sizeof_uint32 + unat (slot_size_' h)))"

subsection \<open>Semaphores\<close>

text \<open>
  \<^verbatim>\<open>sem_wait\<close>, \<^verbatim>\<open>sem_post\<close> and \<^verbatim>\<open>sem_open\<close> are the C library's. One call of
  \<^verbatim>\<open>sem_wait\<close> is driven by what the kernel delivers to it: the token, a signal
  (\<^verbatim>\<open>EINTR\<close>) or another error. A call that is to take a token from a semaphore of
  value 0 does not return in a run where no other process posts.
\<close>

datatype sem_event = SemAcquire | SemSignal | SemError

datatype errno = EINTR | EINVAL

definition SEM_VALUE_MAX :: nat where
  "SEM_VALUE_MAX = 2147483647"

fun sem_wait :: "sem_event \<Rightarrow> nat \<Rightarrow> (int \<times> errno option \<times> nat) outcome" where
  "sem_wait SemAcquire v = (if v = 0 then Blocks else Returns (0, None, v - 1))"
| "sem_wait SemSignal v = Returns (- 1, Some EINTR, v)"
| "sem_wait SemError v = Returns (- 1, Some EINVAL, v)"

text \<open>\<^verbatim>\<open>sem_post\<close>; at \<^verbatim>\<open>SEM_VALUE_MAX\<close> it fails and the callers ignore its result.\<close>

definition sem_post :: "nat \<Rightarrow> nat" where
  "sem_post v = (if v < SEM_VALUE_MAX then v + 1 else v)"

text \<open>
  \<^verbatim>\<open>sem_wait_intr\<close> (the same in both versions):
  \<^verbatim>\<open>do { r = sem_wait(s); } while (r == -1 && errno == EINTR); return r;\<close>
  The list holds what successive \<^verbatim>\<open>sem_wait\<close> calls meet; when it is used up, the call
  is still waiting.
\<close>

fun sem_wait_intr :: "sem_event list \<Rightarrow> nat \<Rightarrow> (int \<times> nat) outcome" where
  "sem_wait_intr [] v = Blocks"
| "sem_wait_intr (e # es) v =
     and_then (sem_wait e v) (\<lambda>(r, err, v').
       if r = - 1 \<and> err = Some EINTR then sem_wait_intr es v' else Returns (r, v'))"

section \<open>Ring operations\<close>

subsection \<open>The annotated version, \<^verbatim>\<open>src/ipc/shared_ring.cpp\<close>\<close>

text \<open>
  The body of \<^verbatim>\<open>write_message\<close> between the two waits and the two posts (lines
  219 to 223): store the length prefix and the payload in the slot at \<^verbatim>\<open>tail\<close>, then
  advance \<^verbatim>\<open>tail\<close>. A copy that leaves the mapped area or reads past the caller's
  buffer, and a modulo by zero, are undefined behaviour.
\<close>

definition write_slot :: "SharedRing \<Rightarrow> byte list \<Rightarrow> u32 \<Rightarrow> ring_shm \<Rightarrow> ring_shm outcome" where
  "write_slot h data len s =
     (let idx = tail (hdr s);
          slot = slot_offset h idx
      in if length (slot_area s) < slot + sizeof_uint32 + unat len \<or> length data < unat len
         then Crashes OutOfBounds
         else
           let a1 = memcpy_to (slot_area s) slot (u32_bytes len);
               a2 = memcpy_to a1 (slot + sizeof_uint32) (take (unat len) data)
           in if slot_count (hdr s) = 0 then Crashes DivByZero
              else Returns (s\<lparr>slot_area := a2,
                                hdr := (hdr s)\<lparr>tail := (idx + 1) mod slot_count (hdr s)\<rparr>\<rparr>))"

definition write_message ::
  "SharedRing \<Rightarrow> sem_event list \<Rightarrow> sem_event list \<Rightarrow> byte list \<Rightarrow> u32 \<Rightarrow> ring_shm
     \<Rightarrow> (bool \<times> ring_shm) outcome" where
  "write_message h ev_free ev_mutex data len s =
     (if len > slot_size_' h then Returns (False, s)
      else
        and_then (sem_wait_intr ev_free (free_val s)) (\<lambda>(r1, fv).
          let s1 = s\<lparr>free_val := fv\<rparr> in
          if r1 = - 1 then Returns (False, s1)
          else
            and_then (sem_wait_intr ev_mutex (mutex_val s1)) (\<lambda>(r2, mv).
              let s2 = s1\<lparr>mutex_val := mv\<rparr> in
              if r2 = - 1 then Returns (False, s2)
              else
                and_then (write_slot h data len s2) (\<lambda>s3.
                  let s4 = s3\<lparr>mutex_val := sem_post (mutex_val s3)\<rparr>;
                      s5 = s4\<lparr>filled_val := sem_post (filled_val s4)\<rparr>
                  in Returns (True, s5)))))"

text \<open>
  The body of \<^verbatim>\<open>read_message\<close> between the waits and the posts (lines 241 to 247):
  read the length prefix of the slot at \<^verbatim>\<open>head\<close>, copy that many payload bytes into
  \<^verbatim>\<open>out\<close>, advance \<^verbatim>\<open>head\<close>.
\<close>

definition read_slot :: "SharedRing \<Rightarrow> ring_shm \<Rightarrow> (byte list \<times> ring_shm) outcome" where
  "read_slot h s =
     (let idx = head (hdr s);
          slot = slot_offset h idx
      in if length (slot_area s) < slot + sizeof_uint32 then Crashes OutOfBounds
         else
           let len = bytes_u32 (memcpy_from (slot_area s) slot sizeof_uint32)
           in if length (slot_area s) < slot + sizeof_uint32 + unat len then Crashes OutOfBounds
              else
                let out = memcpy_from (slot_area s) (slot + sizeof_uint32) (unat len)
                in if slot_count (hdr s) = 0 then Crashes DivByZero
                   else Returns (out, s\<lparr>hdr := (hdr s)\<lparr>head := (idx + 1) mod slot_count (hdr s)\<rparr>\<rparr>))"

text \<open>
  \<^verbatim>\<open>read_message(out)\<close>: the result is the boolean, the contents of \<^verbatim>\<open>out\<close> after the
  call (the caller's vector \<open>out0\<close> when nothing was stored in it) and the shared state.
\<close>

definition read_message ::
  "SharedRing \<Rightarrow> sem_event list \<Rightarrow> sem_event list \<Rightarrow> byte list \<Rightarrow> ring_shm
     \<Rightarrow> (bool \<times> byte list \<times> ring_shm) outcome" where
  "read_message h ev_filled ev_mutex out0 s =
     and_then (sem_wait_intr ev_filled (filled_val s)) (\<lambda>(r1, fv).
       let s1 = s\<lparr>filled_val := fv\<rparr> in
       if r1 = - 1 then Returns (False, out0, s1)
       else
         and_then (sem_wait_intr ev_mutex (mutex_val s1)) (\<lambda>(r2, mv).
           let s2 = s1\<lparr>mutex_val := mv\<rparr> in
           if r2 = - 1 then Returns (False, out0, s2)
           else
             and_then (read_slot h s2) (\<lambda>(out, s3).
               let s4 = s3\<lparr>mutex_val := sem_post (mutex_val s3)\<rparr>;
                   s5 = s4\<lparr>free_val := sem_post (free_val s4)\<rparr>
               in Returns (True, out, s5))))"

subsection \<open>The earlier version, \<^verbatim>\<open>src/unnamed/part_001\<close>\<close>

text \<open>
  Here the first wait is tested with \<^verbatim>\<open>if (!sem_wait_intr(sem_free_)) return false;\<close>
  (\<^verbatim>\<open>!r\<close> is true exactly when \<open>r = 0\<close>), and the result of the wait on the mutex is
  dropped. The slot code is the same.
\<close>

definition write_message_part001 ::
  "SharedRing \<Rightarrow> sem_event list \<Rightarrow> sem_event list \<Rightarrow> byte list \<Rightarrow> u32 \<Rightarrow> ring_shm
     \<Rightarrow> (bool \<times> ring_shm) outcome" where
  "write_message_part001 h ev_free ev_mutex data len s =
     (if len > slot_size_' h then Returns (False, s)
      else
        and_then (sem_wait_intr ev_free (free_val s)) (\<lambda>(r1, fv).
          let s1 = s\<lparr>free_val := fv\<rparr> in
          if r1 = 0 then Returns (False, s1)
          else
            and_then (sem_wait_intr ev_mutex (mutex_val s1)) (\<lambda>(r2, mv).
              let s2 = s1\<lparr>mutex_val := mv\<rparr> in
              and_then (write_slot h data len s2) (\<lambda>s3.
                let s4 = s3\<lparr>mutex_val := sem_post (mutex_val s3)\<rparr>;
                    s5 = s4\<lparr>filled_val := sem_post (filled_val s4)\<rparr>
                in Returns (True, s5)))))"

definition read_message_part001 ::
  "SharedRing \<Rightarrow> sem_event list \<Rightarrow> sem_event list \<Rightarrow> byte list \<Rightarrow> ring_shm
     \<Rightarrow> (bool \<times> byte list \<times> ring_shm) outcome" where
  "read_message_part001 h ev_filled ev_mutex out0 s =
     and_then (sem_wait_intr ev_filled (filled_val s)) (\<lambda>(r1, fv).
       let s1 = s\<lparr>filled_val := fv\<rparr> in
       if r1 = 0 then Returns (False, out0, s1)
       else
         and_then (sem_wait_intr ev_mutex (mutex_val s1)) (\<lambda>(r2, mv).
           let s2 = s1\<lparr>mutex_val := mv\<rparr> in
           and_then (read_slot h s2) (\<lambda>(out, s3).
             let s4 = s3\<lparr>mutex_val := sem_post (mutex_val s3)\<rparr>;
                 s5 = s4\<lparr>free_val := sem_post (free_val s4)\<rparr>
             in Returns (True, out, s5))))"

section \<open>Creating and attaching: \<^verbatim>\<open>create_or_open\<close> and \<^verbatim>\<open>init_map\<close>\<close>

text \<open>
  \<^verbatim>\<open>sanitize_sem(base)\<close>, the same in both versions: every \<^verbatim>\<open>'/'\<close> of \<open>base\<close> becomes
  \<^verbatim>\<open>'_'\<close>, and a \<^verbatim>\<open>"/"\<close> is put in front.
\<close>

definition sanitize_sem :: "string \<Rightarrow> string" where
  "sanitize_sem base = ''/'' @ map (\<lambda>c. if c = CHR ''/'' then CHR ''_'' else c) base"

text \<open>
  What the operating system answers to the calls of \<^verbatim>\<open>create_or_open\<close>: the result of
  \<^verbatim>\<open>shm_open\<close>, whether \<^verbatim>\<open>ftruncate\<close>, \<^verbatim>\<open>mmap\<close> and the \<^verbatim>\<open>sem_open\<close> calls can
  succeed, what \<^verbatim>\<open>fstat\<close> reports, and, for a process that attaches, the region and the
  semaphores that are already there. \<open>sem_attach_ok i n\<close> is the answer to opening the
  semaphore named \<open>n\<close> at the \<open>i\<close>-th attempt.
\<close>

record os_env =
  shm_open_ret :: int
  ftruncate_ok :: bool
  fstat_ret :: int
  st_size :: nat
  mmap_ok :: bool
  sem_create_ok :: "string \<Rightarrow> bool"
  sem_attach_ok :: "nat \<Rightarrow> string \<Rightarrow> bool"
  existing :: ring_shm

text \<open>
  \<^verbatim>\<open>ftruncate(fd, (off_t)map_size_)\<close> refuses a negative length, which is what a size of
  \<open>2^63\<close> or more becomes as an \<^verbatim>\<open>off_t\<close>; \<^verbatim>\<open>mmap\<close> refuses length 0;
  \<^verbatim>\<open>sem_open\<close> with \<^verbatim>\<open>O_CREAT\<close> refuses an initial value above \<^verbatim>\<open>SEM_VALUE_MAX\<close>.
\<close>

definition ftruncate_succeeds :: "os_env \<Rightarrow> nat \<Rightarrow> bool" where
  "ftruncate_succeeds env sz = (ftruncate_ok env \<and> sz < 2 ^ 63)"

definition mmap_succeeds :: "os_env \<Rightarrow> nat \<Rightarrow> bool" where
  "mmap_succeeds env len = (mmap_ok env \<and> 0 < len)"

definition sem_open_create :: "os_env \<Rightarrow> string \<Rightarrow> nat \<Rightarrow> bool" where
  "sem_open_create env name initial = (sem_create_ok env name \<and> initial \<le> SEM_VALUE_MAX)"

definition RING_MAGIC :: u32 where
  "RING_MAGIC = 0xA1B2C3D4"

text \<open>
  The ways \<^verbatim>\<open>init_map\<close> returns \<^verbatim>\<open>false\<close>, by the diagnostic it writes first:
  \<^verbatim>\<open>perror("shm_open")\<close>, \<^verbatim>\<open>perror("ftruncate")\<close>, \<^verbatim>\<open>perror("fstat")\<close>,
  \<^verbatim>\<open>"shm too small"\<close>, \<^verbatim>\<open>perror("mmap")\<close> and \<^verbatim>\<open>"bad shm magic"\<close>.
\<close>

datatype map_error =
  ShmOpenFailed | FtruncateFailed | FstatFailed | ShmTooSmall | MmapFailed | BadMagic

text \<open>
  \<^verbatim>\<open>init_map(create)\<close> of \<^verbatim>\<open>src/ipc/shared_ring.cpp\<close>. \<open>Inl e\<close> is the result
  \<^verbatim>\<open>false\<close> after the diagnostic \<open>e\<close>; on \<^verbatim>\<open>true\<close> the updated handle comes with the
  header and the slot area of the mapped region. When the size computed in \<^verbatim>\<open>size_t\<close>
  has wrapped below the header's size, the creator's \<^verbatim>\<open>memset\<close> of
  \<^verbatim>\<open>map_size_ - header_sz_local\<close> bytes runs out of the mapping.
\<close>

definition init_map ::
  "os_env \<Rightarrow> bool \<Rightarrow> SharedRing
     \<Rightarrow> (map_error + SharedRing \<times> RingHeader \<times> byte list) outcome" where
  "init_map env create p =
     (let header_sz = sizeof_RingHeader;
          single_slot = size_t (sizeof_uint32 + unat (slot_size_' p));
          p1 = p\<lparr>map_size_' := size_t (header_sz + size_t (unat (slot_count_' p) * single_slot))\<rparr>
      in if shm_open_ret env < 0 then Returns (Inl ShmOpenFailed)
         else if create then
           (if \<not> ftruncate_succeeds env (map_size_' p1) then Returns (Inl FtruncateFailed)
            else if \<not> mmap_succeeds env (map_size_' p1) then Returns (Inl MmapFailed)
            else if map_size_' p1 < sizeof_RingHeader then Crashes OutOfBounds
            else
              Returns (Inr (p1,
                \<lparr>magic = RING_MAGIC, version = 1, slot_count = slot_count_' p1,
                 slot_size = slot_size_' p1, head = 0, tail = 0\<rparr>,
                replicate (map_size_' p1 - sizeof_RingHeader) 0)))
         else
           (if fstat_ret env \<noteq> 0 then Returns (Inl FstatFailed)
            else if st_size env < map_size_' p1 then Returns (Inl ShmTooSmall)
            else
              let p2 = p1\<lparr>map_size_' := st_size env\<rparr> in
              if \<not> mmap_succeeds env (map_size_' p2) then Returns (Inl MmapFailed)
              else if magic (hdr (existing env)) \<noteq> RING_MAGIC then Returns (Inl BadMagic)
              else
                Returns (Inr (p2\<lparr>slot_count_' := slot_count (hdr (existing env)),
                                  slot_size_' := slot_size (hdr (existing env))\<rparr>,
                              hdr (existing env), slot_area (existing env)))))"

text \<open>
  \<^verbatim>\<open>init_map(create)\<close> of \<^verbatim>\<open>src/unnamed/part_001\<close>: when attaching it compares the
  region's size with the header's size only (\<^verbatim>\<open>we don't enforce exact size here\<close>).
\<close>

definition init_map_part001 ::
  "os_env \<Rightarrow> bool \<Rightarrow> SharedRing
     \<Rightarrow> (map_error + SharedRing \<times> RingHeader \<times> byte list) outcome" where
  "init_map_part001 env create p =
     (let header_sz = sizeof_RingHeader;
          single_slot = size_t (sizeof_uint32 + unat (slot_size_' p));
          p1 = p\<lparr>map_size_' := size_t (header_sz + size_t (unat (slot_count_' p) * single_slot))\<rparr>
      in if shm_open_ret env < 0 then Returns (Inl ShmOpenFailed)
         else if create then
           (if \<not> ftruncate_succeeds env (map_size_' p1) then Returns (Inl FtruncateFailed)
            else if \<not> mmap_succeeds env (map_size_' p1) then Returns (Inl MmapFailed)
            else if map_size_' p1 < sizeof_RingHeader then Crashes OutOfBounds
            else
              Returns (Inr (p1,
                \<lparr>magic = RING_MAGIC, version = 1, slot_count = slot_count_' p1,
                 slot_size = slot_size_' p1, head = 0, tail = 0\<rparr>,
                replicate (map_size_' p1 - sizeof_RingHeader) 0)))
         else
           (if fstat_ret env \<noteq> 0 then Returns (Inl FstatFailed)
            else if st_size env < header_sz then Returns (Inl ShmTooSmall)
            else
              let p2 = p1\<lparr>map_size_' := st_size env\<rparr> in
              if \<not> mmap_succeeds env (map_size_' p2) then Returns (Inl MmapFailed)
              else if magic (hdr (existing env)) \<noteq> RING_MAGIC then Returns (Inl BadMagic)
              else
                Returns (Inr (p2\<lparr>slot_count_' := slot_count (hdr (existing env)),
                                  slot_size_' := slot_size (hdr (existing env))\<rparr>,
                              hdr (existing env), slot_area (existing env)))))"

text \<open>
  The attach loop of \<^verbatim>\<open>src/ipc/shared_ring.cpp\<close> (lines 76 to 88): up to 20 attempts,
  each opening all three semaphores, leaving the loop as soon as all three are open.
  The triple says which of \<^verbatim>\<open>sem_free_\<close>, \<^verbatim>\<open>sem_filled_\<close>, \<^verbatim>\<open>sem_mutex_\<close> differ from
  \<^verbatim>\<open>SEM_FAILED\<close>.
\<close>

function sem_open_retry ::
  "os_env \<Rightarrow> SharedRing \<Rightarrow> nat \<Rightarrow> bool \<times> bool \<times> bool \<Rightarrow> bool \<times> bool \<times> bool" where
  "sem_open_retry env p i cur =
     (if i < 20 then
        let r = (sem_attach_ok env i (sem_free_name_' p),
                 sem_attach_ok env i (sem_filled_name_' p),
                 sem_attach_ok env i (sem_mutex_name_' p))
        in if fst r \<and> fst (snd r) \<and> snd (snd r) then r
           else sem_open_retry env p (i + 1) r
      else cur)"
  by pat_completeness auto
termination
  by (relation "measure (\<lambda>(env, p, i, cur). 20 - i)") auto

declare sem_open_retry.simps [simp del]

text \<open>
  The fields \<^verbatim>\<open>create_or_open\<close> sets before it maps the region (lines 41 to 50). Its
  parameters \<^verbatim>\<open>slot_count\<close> and \<^verbatim>\<open>slot_size\<close> are written \<open>n_slots\<close> and \<open>n_bytes\<close>,
  apart from the header's fields of those names.
\<close>

definition new_handle :: "string \<Rightarrow> u32 \<Rightarrow> u32 \<Rightarrow> bool \<Rightarrow> SharedRing" where
  "new_handle name n_slots n_bytes create =
     \<lparr>shm_name_' = name, map_size_' = 0, slot_count_' = n_slots, slot_size_' = n_bytes,
      owner_' = create,
      sem_free_name_' = sanitize_sem (name @ ''_free''),
      sem_filled_name_' = sanitize_sem (name @ ''_filled''),
      sem_mutex_name_' = sanitize_sem (name @ ''_mutex'')\<rparr>"

text \<open>
  \<^verbatim>\<open>create_or_open\<close> of \<^verbatim>\<open>src/ipc/shared_ring.cpp\<close>. \<open>None\<close> is \<^verbatim>\<open>nullptr\<close>,
  returned when \<^verbatim>\<open>init_map\<close> gave \<^verbatim>\<open>false\<close> or a semaphore could not be opened; a
  live handle comes with the shared state it refers to.
\<close>

definition create_or_open ::
  "os_env \<Rightarrow> string \<Rightarrow> u32 \<Rightarrow> u32 \<Rightarrow> bool \<Rightarrow> (SharedRing \<times> ring_shm) option outcome" where
  "create_or_open env name n_slots n_bytes create =
     (let p = new_handle name n_slots n_bytes create in
      and_then (init_map env create p) (\<lambda>m.
        case m of
          Inl e \<Rightarrow> Returns None
        | Inr (p', h, area) \<Rightarrow>
            if create then
              (if \<not> sem_open_create env (sem_free_name_' p') (unat n_slots) then Returns None
               else if \<not> sem_open_create env (sem_filled_name_' p') 0 then Returns None
               else if \<not> sem_open_create env (sem_mutex_name_' p') 1 then Returns None
               else Returns (Some (p',
                      \<lparr>hdr = h, slot_area = area, free_val = unat n_slots,
                       filled_val = 0, mutex_val = 1\<rparr>)))
            else
              (let r = sem_open_retry env p' 0 (False, False, False) in
               if \<not> fst r \<or> \<not> fst (snd r) \<or> \<not> snd (snd r) then Returns None
               else Returns (Some (p', existing env)))))"

text \<open>
  \<^verbatim>\<open>create_or_open\<close> of \<^verbatim>\<open>src/unnamed/part_001\<close>: no retry when attaching, each
  \<^verbatim>\<open>sem_open\<close> is tried once.
\<close>

definition create_or_open_part001 ::
  "os_env \<Rightarrow> string \<Rightarrow> u32 \<Rightarrow> u32 \<Rightarrow> bool \<Rightarrow> (SharedRing \<times> ring_shm) option outcome" where
  "create_or_open_part001 env name n_slots n_bytes create =
     (let p = new_handle name n_slots n_bytes create in
      and_then (init_map_part001 env create p) (\<lambda>m.
        case m of
          Inl e \<Rightarrow> Returns None
        | Inr (p', h, area) \<Rightarrow>
            if create then
              (if \<not> sem_open_create env (sem_free_name_' p') (unat n_slots) then Returns None
               else if \<not> sem_open_create env (sem_filled_name_' p') 0 then Returns None
               else if \<not> sem_open_create env (sem_mutex_name_' p') 1 then Returns None
               else Returns (Some (p',
                      \<lparr>hdr = h, slot_area = area, free_val = unat n_slots,
                       filled_val = 0, mutex_val = 1\<rparr>)))
            else
              (if \<not> sem_attach_ok env 0 (sem_free_name_' p') then Returns None
               else if \<not> sem_attach_ok env 0 (sem_filled_name_' p') then Returns None
               else if \<not> sem_attach_ok env 0 (sem_mutex_name_' p') then Returns None
               else Returns (Some (p', existing env)))))"

section \<open>The discovery daemon\<close>

text \<open>
  The daemon's \<^verbatim>\<open>main\<close> loop (the annotated \<^verbatim>\<open>ipc_daemon\<close> source; the earlier copy
  differs only in the text it logs for an unknown request). One iteration takes the
  bytes of one datagram and the registry, and gives the new registry, the datagrams
  handed to \<^verbatim>\<open>sendto\<close> in order, and the lines written to standard output.
\<close>

record ClientInfo =
  sock :: string
  shm :: string

type_synonym registry = "string \<rightharpoonup> ClientInfo list"

record datagram =
  dest :: string
  payload :: string

text \<open>\<^verbatim>\<open>std::isspace\<close> in the C locale, which \<^verbatim>\<open>operator>>\<close> uses to delimit tokens.\<close>

definition isspace :: "char \<Rightarrow> bool" where
  "isspace c = (c = CHR '' '' \<or> (9 \<le> (of_char c :: nat) \<and> (of_char c :: nat) \<le> 13))"

text \<open>
  \<^verbatim>\<open>iss >> tok\<close>: skip white space, take the characters up to the next white space.
  The result is the token and the rest of the stream. When nothing is left the token is
  empty, as the default-constructed string stays that \<^verbatim>\<open>operator>>\<close> could not fill.
\<close>

definition extract_token :: "string \<Rightarrow> string \<times> string" where
  "extract_token s =
     (let s' = dropWhile isspace s
      in (takeWhile (\<lambda>c. \<not> isspace c) s', dropWhile (\<lambda>c. \<not> isspace c) s'))"

text \<open>
  \<^verbatim>\<open>strncpy(dest.sun_path, p.c_str(), sizeof(dest.sun_path) - 1)\<close> into a zeroed
  \<^verbatim>\<open>sockaddr_un\<close>, whose \<^verbatim>\<open>sun_path\<close> has 108 bytes on Linux.
\<close>

definition sun_path :: "string \<Rightarrow> string" where
  "sun_path p = take 107 p"

definition peer_msg :: "string \<Rightarrow> string \<Rightarrow> string \<Rightarrow> string" where
  "peer_msg key peer_sock peer_shm = ''PEER '' @ key @ '' '' @ peer_sock @ '' '' @ peer_shm"

definition daemon_step :: "string \<Rightarrow> registry \<Rightarrow> registry \<times> datagram list \<times> string list" where
  "daemon_step raw reg =
     (let buf = take 1023 raw in
      if length buf = 0 then (reg, [], [])
      else
        let msg = takeWhile (\<lambda>c. c \<noteq> CHR 0x00) buf;
            (cmd, rest1) = extract_token msg
        in if cmd = ''REGISTER'' then
             let (key, rest2) = extract_token rest1;
                 (client_sock, rest3) = extract_token rest2;
                 (shm_name, rest4) = extract_token rest3;
                 ci = \<lparr>sock = client_sock, shm = shm_name\<rparr>;
                 vec = (case reg key of None \<Rightarrow> [] | Some v \<Rightarrow> v);
                 replies = map (\<lambda>p. \<lparr>dest = sun_path client_sock,
                                      payload = peer_msg key (sock p) (shm p)\<rparr>) vec;
                 vec' = vec @ [ci];
                 notifies = map (\<lambda>p. \<lparr>dest = sun_path (sock p),
                                       payload = peer_msg key client_sock shm_name\<rparr>)
                              (filter (\<lambda>p. sock p \<noteq> client_sock) vec')
             in (reg(key \<mapsto> vec'), replies @ notifies,
                 [''REGISTER: '' @ key @ '' '' @ client_sock @ '' '' @ shm_name])
           else (reg, [], [''unrecognised request: '' @ msg]))"

section \<open>Sequences of calls\<close>

text \<open>
  A call of one of the two ring operations: the handle of the calling process, the
  arguments, and what its two waits meet. Calls are run one after the other, each to
  its end. \<open>run_calls\<close> is the run in which every call returns \<^verbatim>\<open>true\<close>: it gives the
  payloads the reads delivered, in order, and the final shared state, and \<open>None\<close> when
  some call fails, blocks or crashes.
\<close>

datatype ring_call =
    Write SharedRing "byte list" u32 "sem_event list" "sem_event list"
  | Read SharedRing "sem_event list" "sem_event list"

fun caller :: "ring_call \<Rightarrow> SharedRing" where
  "caller (Write h data len ev_free ev_mutex) = h"
| "caller (Read h ev_filled ev_mutex) = h"

fun run_calls :: "ring_call list \<Rightarrow> ring_shm \<Rightarrow> (byte list list \<times> ring_shm) option" where
  "run_calls [] s = Some ([], s)"
| "run_calls (Write h data len ev_free ev_mutex # cs) s =
     (case write_message h ev_free ev_mutex data len s of
        Returns (True, s') \<Rightarrow> run_calls cs s'
      | _ \<Rightarrow> None)"
| "run_calls (Read h ev_filled ev_mutex # cs) s =
     (case read_message h ev_filled ev_mutex [] s of
        Returns (True, out, s') \<Rightarrow>
          (case run_calls cs s' of
             Some (outs, s'') \<Rightarrow> Some (out # outs, s'')
           | None \<Rightarrow> None)
      | _ \<Rightarrow> None)"

text \<open>The payloads the writes of a sequence pass in, and the numbers of writes and reads.\<close>

fun written :: "ring_call list \<Rightarrow> byte list list" where
  "written [] = []"
| "written (Write h data len ev_free ev_mutex # cs) = take (unat len) data # written cs"
| "written (Read h ev_filled ev_mutex # cs) = written cs"

fun count_writes :: "ring_call list \<Rightarrow> nat" where
  "count_writes [] = 0"
| "count_writes (Write h data len ev_free ev_mutex # cs) = Suc (count_writes cs)"
| "count_writes (Read h ev_filled ev_mutex # cs) = count_writes cs"

fun count_reads :: "ring_call list \<Rightarrow> nat" where
  "count_reads [] = 0"
| "count_reads (Write h data len ev_free ev_mutex # cs) = count_reads cs"
| "count_reads (Read h ev_filled ev_mutex # cs) = Suc (count_reads cs)"

text \<open>
  The invariant of a ring between calls, for the queue \<open>q\<close> of messages written and not
  yet read: the slot at offset \<open>off\<close> holds message \<open>m\<close> when its length prefix and
  payload bytes are those of \<open>m\<close>.
\<close>

definition slot_holds :: "byte list \<Rightarrow> nat \<Rightarrow> byte list \<Rightarrow> bool" where
  "slot_holds area off m =
     (memcpy_from area off (sizeof_uint32 + length m) = u32_bytes (of_nat (length m)) @ m)"

definition ring_inv :: "ring_shm \<Rightarrow> byte list list \<Rightarrow> bool" where
  "ring_inv s q =
     (let N = unat (slot_count (hdr s)); S = unat (slot_size (hdr s)); hd_ix = unat (head (hdr s))
      in 0 < N \<and> N \<le> SEM_VALUE_MAX \<and>
         sizeof_RingHeader + N * (sizeof_uint32 + S) < 2 ^ 63 \<and>
         length (slot_area s) = N * (sizeof_uint32 + S) \<and>
         hd_ix < N \<and> length q \<le> N \<and>
         unat (tail (hdr s)) = (hd_ix + length q) mod N \<and>
         filled_val s = length q \<and> free_val s = N - length q \<and> mutex_val s = 1 \<and>
         (\<forall>i < length q.
            length (q ! i) \<le> S \<and>
            slot_holds (slot_area s) (((hd_ix + i) mod N) * (sizeof_uint32 + S)) (q ! i)))"

text \<open>An operating system in which every call of \<^verbatim>\<open>create_or_open(..., true)\<close> succeeds.\<close>

definition os_ok :: "os_env \<Rightarrow> bool" where
  "os_ok env = (0 \<le> shm_open_ret env \<and> ftruncate_ok env \<and> mmap_ok env \<and>
                (\<forall>n. sem_create_ok env n))"

section \<open>Notions used in the statements\<close>

text \<open>What \<^verbatim>\<open>sanitize_sem\<close> does to one character.\<close>

definition slash_to_underscore :: "char \<Rightarrow> char" where
  "slash_to_underscore c = (if c = CHR ''/'' then CHR ''_'' else c)"

text \<open>
  The daemon's view of a datagram: the message it parses, its first token, and the
  three tokens after \<^verbatim>\<open>REGISTER\<close>. \<open>registered reg key\<close> is \<^verbatim>\<open>registry[key]\<close>, empty
  when the key is new.
\<close>

definition request_msg :: "string \<Rightarrow> string" where
  "request_msg raw = takeWhile (\<lambda>c. c \<noteq> CHR 0x00) (take 1023 raw)"

definition request_cmd :: "string \<Rightarrow> string" where
  "request_cmd raw = fst (extract_token (request_msg raw))"

definition parse_register :: "string \<Rightarrow> (string \<times> string \<times> string) option" where
  "parse_register raw =
     (let (cmd, rest1) = extract_token (request_msg raw);
          (key, rest2) = extract_token rest1;
          (client_sock, rest3) = extract_token rest2;
          (shm_name, rest4) = extract_token rest3
      in if raw \<noteq> [] \<and> cmd = ''REGISTER'' then Some (key, client_sock, shm_name) else None)"

definition registered :: "registry \<Rightarrow> string \<Rightarrow> ClientInfo list" where
  "registered reg key = (case reg key of None \<Rightarrow> [] | Some v \<Rightarrow> v)"

subsection \<open>Concrete inputs\<close>

text \<open>
  An operating system that grants every call, and in which a process that attaches
  finds the region \<open>s\<close> of \<open>sz\<close> bytes.
\<close>

definition demo_env :: os_env where
  "demo_env =
     \<lparr>shm_open_ret = 3, ftruncate_ok = True, fstat_ret = 0, st_size = 0, mmap_ok = True,
      sem_create_ok = (\<lambda>n. True), sem_attach_ok = (\<lambda>i n. True),
      existing = \<lparr>hdr = \<lparr>magic = 0, version = 0, slot_count = 0, slot_size = 0,
                           head = 0, tail = 0\<rparr>,
                  slot_area = [], free_val = 0, filled_val = 0, mutex_val = 0\<rparr>\<rparr>"

definition attach_env :: "nat \<Rightarrow> ring_shm \<Rightarrow> os_env" where
  "attach_env sz s = demo_env\<lparr>st_size := sz, existing := s\<rparr>"

text \<open>The ring of one slot of one byte, as created, and after one write of \<^verbatim>\<open>"a"\<close>.\<close>

definition ring1_handle :: SharedRing where
  "ring1_handle =
     \<lparr>shm_name_' = ''/r'', map_size_' = 57, slot_count_' = 1, slot_size_' = 1, owner_' = True,
      sem_free_name_' = ''/_r_free'', sem_filled_name_' = ''/_r_filled'',
      sem_mutex_name_' = ''/_r_mutex''\<rparr>"

definition ring1_created :: ring_shm where
  "ring1_created =
     \<lparr>hdr = \<lparr>magic = RING_MAGIC, version = 1, slot_count = 1, slot_size = 1, head = 0, tail = 0\<rparr>,
      slot_area = [0, 0, 0, 0, 0], free_val = 1, filled_val = 0, mutex_val = 1\<rparr>"

definition ring1_full :: ring_shm where
  "ring1_full =
     \<lparr>hdr = \<lparr>magic = RING_MAGIC, version = 1, slot_count = 1, slot_size = 1, head = 0, tail = 0\<rparr>,
      slot_area = [1, 0, 0, 0, 0x61], free_val = 0, filled_val = 1, mutex_val = 1\<rparr>"

text \<open>The ring created with \<^verbatim>\<open>slot_count = 0\<close>.\<close>

definition ring0_handle :: SharedRing where
  "ring0_handle =
     \<lparr>shm_name_' = ''/r'', map_size_' = 52, slot_count_' = 0, slot_size_' = 1, owner_' = True,
      sem_free_name_' = ''/_r_free'', sem_filled_name_' = ''/_r_filled'',
      sem_mutex_name_' = ''/_r_mutex''\<rparr>"

definition ring0_created :: ring_shm where
  "ring0_created =
     \<lparr>hdr = \<lparr>magic = RING_MAGIC, version = 1, slot_count = 0, slot_size = 1, head = 0, tail = 0\<rparr>,
      slot_area = [], free_val = 0, filled_val = 0, mutex_val = 1\<rparr>"

text \<open>The ring of two slots of eight bytes, its owner's handle and an attached handle.\<close>

definition ring2_owner :: SharedRing where
  "ring2_owner =
     \<lparr>shm_name_' = ''/ring_t2'', map_size_' = 76, slot_count_' = 2, slot_size_' = 8,
      owner_' = True,
      sem_free_name_' = ''/_ring_t2_free'', sem_filled_name_' = ''/_ring_t2_filled'',
      sem_mutex_name_' = ''/_ring_t2_mutex''\<rparr>"

definition ring2_attached :: SharedRing where
  "ring2_attached = ring2_owner\<lparr>owner_' := False\<rparr>"

definition ring2_created :: ring_shm where
  "ring2_created =
     \<lparr>hdr = \<lparr>magic = RING_MAGIC, version = 1, slot_count = 2, slot_size = 8, head = 0, tail = 0\<rparr>,
      slot_area = replicate 24 0, free_val = 2, filled_val = 0, mutex_val = 1\<rparr>"

text \<open>
  The second end-to-end scenario of the specification: write \<^verbatim>\<open>"a"\<close> and \<^verbatim>\<open>"bb"\<close>, read,
  write \<^verbatim>\<open>"ccc"\<close>, read twice. The second write is interrupted by a signal once.
\<close>

definition scenario2 :: "ring_call list" where
  "scenario2 =
     [Write ring2_owner [0x61] 1 [SemAcquire] [SemAcquire],
      Write ring2_owner [0x62, 0x62] 2 [SemSignal, SemAcquire] [SemAcquire],
      Read ring2_attached [SemAcquire] [SemAcquire],
      Write ring2_owner [0x63, 0x63, 0x63] 3 [SemAcquire] [SemAcquire],
      Read ring2_attached [SemAcquire] [SemAcquire],
      Read ring2_attached [SemAcquire] [SemAcquire]]"

definition ring2_final :: ring_shm where
  "ring2_final =
     \<lparr>hdr = \<lparr>magic = RING_MAGIC, version = 1, slot_count = 2, slot_size = 8, head = 1, tail = 1\<rparr>,
      slot_area = [3, 0, 0, 0, 0x63, 0x63, 0x63, 0, 0, 0, 0, 0,
                   2, 0, 0, 0, 0x62, 0x62, 0, 0, 0, 0, 0, 0],
      free_val = 2, filled_val = 0, mutex_val = 1\<rparr>"

text \<open>The first three calls of that scenario, and the ring after them.\<close>

definition scenario2_start :: "ring_call list" where
  "scenario2_start = take 3 scenario2"

definition ring2_after_read :: ring_shm where
  "ring2_after_read =
     \<lparr>hdr = \<lparr>magic = RING_MAGIC, version = 1, slot_count = 2, slot_size = 8, head = 1, tail = 0\<rparr>,
      slot_area = [1, 0, 0, 0, 0x61, 0, 0, 0, 0, 0, 0, 0,
                   2, 0, 0, 0, 0x62, 0x62, 0, 0, 0, 0, 0, 0],
      free_val = 1, filled_val = 1, mutex_val = 1\<rparr>"

text \<open>The ring the producer creates, for the process identifier 1234.\<close>

definition ipc_demo_handle :: SharedRing where
  "ipc_demo_handle =
     \<lparr>shm_name_' = ''/ipc_demo_1234'', map_size_' = 2132, slot_count_' = 8, slot_size_' = 256,
      owner_' = True,
      sem_free_name_' = ''/_ipc_demo_1234_free'', sem_filled_name_' = ''/_ipc_demo_1234_filled'',
      sem_mutex_name_' = ''/_ipc_demo_1234_mutex''\<rparr>"

definition ipc_demo_created :: ring_shm where
  "ipc_demo_created =
     \<lparr>hdr = \<lparr>magic = RING_MAGIC, version = 1, slot_count = 8, slot_size = 256, head = 0, tail = 0\<rparr>,
      slot_area = replicate 2080 0, free_val = 8, filled_val = 0, mutex_val = 1\<rparr>"

text \<open>A registry with one producer under the key \<^verbatim>\<open>demo\<close>.\<close>

definition demo_registry :: registry where
  "demo_registry = [''demo'' \<mapsto> [\<lparr>sock = ''/tmp/p.sock'', shm = ''/r1''\<rparr>]]"

section \<open>Bytes, copies and waits\<close>

lemma bytes_u32_bytes: "bytes_u32 (u32_bytes w) = w"
  unfolding bytes_u32_def u32_bytes_def
  apply simp
  apply (rule bit_word_eqI)
  apply (auto simp add: bit_simps)
  subgoal for n by (cases "n < 24") simp_all
  done

lemma length_u32_bytes: "length (u32_bytes w) = 4"
  by (simp add: u32_bytes_def)

lemma length_memcpy_to:
  "off + length bs \<le> length area \<Longrightarrow> length (memcpy_to area off bs) = length area"
  by (simp add: memcpy_to_def)

lemma memcpy_from_to_same:
  "off + length bs \<le> length area \<Longrightarrow> memcpy_from (memcpy_to area off bs) off (length bs) = bs"
  by (simp add: memcpy_to_def memcpy_from_def)

lemma memcpy_from_to_before:
  "o2 + n \<le> off \<Longrightarrow> off + length bs \<le> length area \<Longrightarrow>
   memcpy_from (memcpy_to area off bs) o2 n = memcpy_from area o2 n"
proof -
  assume a: "o2 + n \<le> off" and b: "off + length bs \<le> length area"
  have "take n (drop o2 (take off area @ bs @ drop (off + length bs) area))
        = take n (drop o2 (take off area))"
    using a b by simp
  also have "\<dots> = take n (take (off - o2) (drop o2 area))"
    by (simp add: drop_take)
  also have "\<dots> = take n (drop o2 area)"
    using a by (simp add: min_def)
  finally show ?thesis by (simp add: memcpy_to_def memcpy_from_def)
qed

lemma memcpy_from_to_after:
  "off + length bs \<le> o2 \<Longrightarrow> off + length bs \<le> length area \<Longrightarrow>
   memcpy_from (memcpy_to area off bs) o2 n = memcpy_from area o2 n"
  by (simp add: memcpy_to_def memcpy_from_def)

lemma memcpy_to_twice:
  "off + length as + length bs \<le> length area \<Longrightarrow>
   memcpy_to (memcpy_to area off as) (off + length as) bs = memcpy_to area off (as @ bs)"
  by (simp add: memcpy_to_def ac_simps)

lemma sem_wait_intr_cases:
  "sem_wait_intr es v = Returns (r, v') \<Longrightarrow> (r = 0 \<and> 0 < v \<and> v' = v - 1) \<or> (r = - 1 \<and> v' = v)"
proof (induction es arbitrary: v)
  case Nil
  then show ?case by simp
next
  case (Cons e es)
  then show ?case by (cases e) (auto split: if_splits)
qed

lemma sem_wait_intr_no_crash: "sem_wait_intr es v \<noteq> Crashes f"
proof (induction es arbitrary: v)
  case Nil
  then show ?case by simp
next
  case (Cons e es)
  then show ?case by (cases e) (auto split: if_splits)
qed

lemma sem_wait_intr_acquire:
  "sem_wait_intr (replicate j SemSignal @ SemAcquire # es) v = (if v = 0 then Blocks else Returns (0, v - 1))"
  by (induction j) auto

lemma sem_wait_intr_error:
  "sem_wait_intr (replicate j SemSignal @ SemError # es) v = Returns (- 1, v)"
  by (induction j) auto


section \<open>The ring invariant\<close>

lemma size_t_id: "n < 2 ^ 64 \<Longrightarrow> size_t n = n"
  by (simp add: size_t_def)

lemma unat_u32_bound: "unat (w :: u32) < 4294967296"
  using unsigned_less[of w, where ?'a = nat] by simp

lemma slot_offset_plain:
  assumes "unat idx * (sizeof_uint32 + unat (slot_size_' h)) < 2 ^ 64"
  shows "slot_offset h idx = unat idx * (sizeof_uint32 + unat (slot_size_' h))"
proof -
  have "sizeof_uint32 + unat (slot_size_' h) < 2 ^ 64"
    using unat_u32_bound[of "slot_size_' h"] by (simp add: sizeof_uint32_def)
  then show ?thesis using assms by (simp add: slot_offset_def size_t_id)
qed

lemma slot_end_le:
  fixes i N sz :: nat
  assumes "i < N"
  shows "i * sz + sz \<le> N * sz"
proof -
  have "Suc i * sz \<le> N * sz" using assms by (intro mult_le_mono1) simp
  then show ?thesis by (simp add: ac_simps)
qed

lemma slots_disjoint:
  fixes i j sz :: nat
  assumes "i \<noteq> j"
  shows "i * sz + sz \<le> j * sz \<or> j * sz + sz \<le> i * sz"
proof (cases "i < j")
  case True
  then have "Suc i * sz \<le> j * sz" by (intro mult_le_mono1) simp
  then show ?thesis by (simp add: ac_simps)
next
  case False
  with assms have "j < i" by simp
  then have "Suc j * sz \<le> i * sz" by (intro mult_le_mono1) simp
  then show ?thesis by (simp add: ac_simps)
qed

lemma unat_succ_mod:
  fixes idx n :: u32
  assumes "unat idx < unat n"
  shows "unat ((idx + 1) mod n) = (unat idx + 1) mod unat n"
proof -
  have "unat idx + 1 < 2 ^ 32" using assms unat_u32_bound[of n] by simp
  then have "unat (idx + 1) = unat idx + 1"
    by (simp add: unat_word_ariths)
  then show ?thesis by (simp add: unat_mod)
qed

lemma ring_invD:
  assumes "ring_inv s q"
  shows "0 < unat (slot_count (hdr s))"
    and "unat (slot_count (hdr s)) \<le> SEM_VALUE_MAX"
    and "sizeof_RingHeader + unat (slot_count (hdr s)) * (sizeof_uint32 + unat (slot_size (hdr s))) < 2 ^ 63"
    and "length (slot_area s) = unat (slot_count (hdr s)) * (sizeof_uint32 + unat (slot_size (hdr s)))"
    and "unat (head (hdr s)) < unat (slot_count (hdr s))"
    and "length q \<le> unat (slot_count (hdr s))"
    and "unat (tail (hdr s)) = (unat (head (hdr s)) + length q) mod unat (slot_count (hdr s))"
    and "filled_val s = length q"
    and "free_val s = unat (slot_count (hdr s)) - length q"
    and "mutex_val s = 1"
    and "\<And>i. i < length q \<Longrightarrow> length (q ! i) \<le> unat (slot_size (hdr s))"
    and "\<And>i. i < length q \<Longrightarrow>
           slot_holds (slot_area s)
             (((unat (head (hdr s)) + i) mod unat (slot_count (hdr s))) *
                (sizeof_uint32 + unat (slot_size (hdr s)))) (q ! i)"
  using assms unfolding ring_inv_def Let_def by blast+

lemma ring_inv_offset:
  assumes inv: "ring_inv s q" and hs: "slot_size_' h = slot_size (hdr s)"
    and i: "unat idx < unat (slot_count (hdr s))"
  shows "slot_offset h idx = unat idx * (sizeof_uint32 + unat (slot_size (hdr s)))"
    and "unat idx * (sizeof_uint32 + unat (slot_size (hdr s))) + (sizeof_uint32 + unat (slot_size (hdr s)))
           \<le> length (slot_area s)"
proof -
  let ?sz = "sizeof_uint32 + unat (slot_size (hdr s))"
  have le: "unat idx * ?sz + ?sz \<le> unat (slot_count (hdr s)) * ?sz"
    using i by (rule slot_end_le)
  have "unat (slot_count (hdr s)) * ?sz < 2 ^ 63" using ring_invD(3)[OF inv] by simp
  then have "unat idx * ?sz < 2 ^ 64" using le by simp
  then show "slot_offset h idx = unat idx * ?sz"
    using slot_offset_plain[of idx h] hs by simp
  show "unat idx * ?sz + ?sz \<le> length (slot_area s)"
    using le ring_invD(4)[OF inv] by simp
qed


lemma and_then_Returns_iff:
  "and_then x k = Returns y \<longleftrightarrow> (\<exists>a. x = Returns a \<and> k a = Returns y)"
  by (cases x) auto

lemma write_message_TrueE:
  assumes "write_message h ev_free ev_mutex data len s = Returns (True, s')"
  obtains fv mv s3 where "\<not> slot_size_' h < len"
    and "sem_wait_intr ev_free (free_val s) = Returns (0, fv)"
    and "sem_wait_intr ev_mutex (mutex_val s) = Returns (0, mv)"
    and "write_slot h data len (s\<lparr>free_val := fv, mutex_val := mv\<rparr>) = Returns s3"
    and "s' = s3\<lparr>mutex_val := sem_post (mutex_val s3), filled_val := sem_post (filled_val s3)\<rparr>"
proof -
  from assms have nl: "\<not> slot_size_' h < len"
    by (auto simp: write_message_def split: if_splits)
  from assms nl obtain r1 fv where w1: "sem_wait_intr ev_free (free_val s) = Returns (r1, fv)"
    and k1: "(let s1 = s\<lparr>free_val := fv\<rparr> in
          if r1 = - 1 then Returns (False, s1)
          else
            and_then (sem_wait_intr ev_mutex (mutex_val s1)) (\<lambda>(r2, mv).
              let s2 = s1\<lparr>mutex_val := mv\<rparr> in
              if r2 = - 1 then Returns (False, s2)
              else
                and_then (write_slot h data len s2) (\<lambda>s3.
                  let s4 = s3\<lparr>mutex_val := sem_post (mutex_val s3)\<rparr>;
                      s5 = s4\<lparr>filled_val := sem_post (filled_val s4)\<rparr>
                  in Returns (True, s5)))) = Returns (True, s')"
    by (auto simp: write_message_def and_then_Returns_iff)
  from k1 have r1n: "r1 \<noteq> - 1" by (auto simp: Let_def split: if_splits)
  with sem_wait_intr_cases[OF w1] have r1: "r1 = 0" by auto
  from k1 r1n obtain r2 mv where w2: "sem_wait_intr ev_mutex (mutex_val s) = Returns (r2, mv)"
    and k2: "(let s2 = s\<lparr>free_val := fv, mutex_val := mv\<rparr> in
              if r2 = - 1 then Returns (False, s2)
              else
                and_then (write_slot h data len s2) (\<lambda>s3.
                  let s4 = s3\<lparr>mutex_val := sem_post (mutex_val s3)\<rparr>;
                      s5 = s4\<lparr>filled_val := sem_post (filled_val s4)\<rparr>
                  in Returns (True, s5))) = Returns (True, s')"
    by (auto simp: Let_def and_then_Returns_iff)
  from k2 have r2n: "r2 \<noteq> - 1" by (auto simp: Let_def split: if_splits)
  with sem_wait_intr_cases[OF w2] have r2: "r2 = 0" by auto
  from k2 r2n obtain s3 where ws: "write_slot h data len (s\<lparr>free_val := fv, mutex_val := mv\<rparr>) = Returns s3"
    and s': "s' = s3\<lparr>mutex_val := sem_post (mutex_val s3), filled_val := sem_post (filled_val s3)\<rparr>"
    by (auto simp: Let_def and_then_Returns_iff)
  from that[OF nl w1[unfolded r1] w2[unfolded r2] ws s'] show thesis .
qed

lemma write_message_TrueI:
  assumes "\<not> slot_size_' h < len"
    and "sem_wait_intr ev_free (free_val s) = Returns (0, fv)"
    and "sem_wait_intr ev_mutex (mutex_val s) = Returns (0, mv)"
    and "write_slot h data len (s\<lparr>free_val := fv, mutex_val := mv\<rparr>) = Returns s3"
  shows "write_message h ev_free ev_mutex data len s =
           Returns (True, s3\<lparr>mutex_val := sem_post (mutex_val s3), filled_val := sem_post (filled_val s3)\<rparr>)"
  using assms by (simp add: write_message_def Let_def)

lemma write_slot_inv:
  assumes inv: "ring_inv s q" and hs: "slot_size_' h = slot_size (hdr s)"
    and room: "length q < unat (slot_count (hdr s))"
    and len: "\<not> slot_size_' h < len"
    and data: "unat len \<le> length data"
    and s2: "hdr s2 = hdr s" "slot_area s2 = slot_area s"
  shows "write_slot h data len s2 =
           Returns (s2\<lparr>slot_area :=
                          memcpy_to (slot_area s)
                            (unat (tail (hdr s)) * (sizeof_uint32 + unat (slot_size (hdr s))))
                            (u32_bytes len @ take (unat len) data),
                        hdr := (hdr s)\<lparr>tail := (tail (hdr s) + 1) mod slot_count (hdr s)\<rparr>\<rparr>)"
proof -
  let ?N = "unat (slot_count (hdr s))"
  let ?sz = "sizeof_uint32 + unat (slot_size (hdr s))"
  let ?t = "unat (tail (hdr s))"
  note I = ring_invD[OF inv]
  have tN: "?t < ?N" using I(1) I(7) by simp
  note off = ring_inv_offset[OF inv hs tN]
  have lenS: "unat len \<le> unat (slot_size (hdr s))"
    using len hs by (simp add: word_le_nat_alt not_less)
  have fits: "?t * ?sz + sizeof_uint32 + unat len \<le> length (slot_area s)"
    using off(2) lenS by simp
  have n0: "slot_count (hdr s) \<noteq> 0" using I(1) by auto
  have two: "memcpy_to (memcpy_to (slot_area s) (?t * ?sz) (u32_bytes len))
               (?t * ?sz + sizeof_uint32) (take (unat len) data)
             = memcpy_to (slot_area s) (?t * ?sz) (u32_bytes len @ take (unat len) data)"
    using memcpy_to_twice[of "?t * ?sz" "u32_bytes len" "take (unat len) data" "slot_area s"]
      fits data by (simp add: length_u32_bytes sizeof_uint32_def min_def)
  show ?thesis
    unfolding write_slot_def Let_def s2 off(1)
    using fits data n0 two by simp
qed


lemma write_slot_data:
  "write_slot h data len s = Returns x \<Longrightarrow> unat len \<le> length data"
  by (auto simp: write_slot_def Let_def split: if_splits)

lemma mod_index_neq:
  fixes a i k N :: nat
  assumes "i < k" "k < N"
  shows "(a + i) mod N \<noteq> (a + k) mod N"
proof
  assume e: "(a + i) mod N = (a + k) mod N"
  have "a + i \<le> a + k" using assms by simp
  with e have "N dvd (a + k) - (a + i)"
    by (metis mod_eq_dvd_iff_nat)
  then have "N dvd k - i" by simp
  moreover have "0 < k - i" "k - i < N" using assms by simp_all
  ultimately show False by (meson nat_dvd_not_less)
qed

lemma sem_post_below: "v < SEM_VALUE_MAX \<Longrightarrow> sem_post v = Suc v"
  by (simp add: sem_post_def)

lemma write_message_inv:
  assumes inv: "ring_inv s q" and hs: "slot_size_' h = slot_size (hdr s)"
    and res: "write_message h ev_free ev_mutex data len s = Returns (True, s')"
  shows "ring_inv s' (q @ [take (unat len) data]) \<and> hdr s' = (hdr s)\<lparr>tail := tail (hdr s')\<rparr>"
proof -
  let ?N = "unat (slot_count (hdr s))"
  let ?S = "unat (slot_size (hdr s))"
  let ?sz = "sizeof_uint32 + ?S"
  let ?hd = "unat (head (hdr s))"
  let ?t = "unat (tail (hdr s))"
  let ?m = "take (unat len) data"
  let ?A = "memcpy_to (slot_area s) (?t * ?sz) (u32_bytes len @ ?m)"
  note I = ring_invD[OF inv]
  from res obtain fv mv s3 where nl: "\<not> slot_size_' h < len"
    and w1: "sem_wait_intr ev_free (free_val s) = Returns (0, fv)"
    and w2: "sem_wait_intr ev_mutex (mutex_val s) = Returns (0, mv)"
    and ws: "write_slot h data len (s\<lparr>free_val := fv, mutex_val := mv\<rparr>) = Returns s3"
    and s': "s' = s3\<lparr>mutex_val := sem_post (mutex_val s3), filled_val := sem_post (filled_val s3)\<rparr>"
    by (rule write_message_TrueE)
  from sem_wait_intr_cases[OF w1] have fpos: "0 < free_val s" and fv: "fv = free_val s - 1" by auto
  from sem_wait_intr_cases[OF w2] I(10) have mv: "mv = 0" by auto
  from fpos I(9) have room: "length q < ?N" by simp
  have data: "unat len \<le> length data" using ws by (rule write_slot_data)
  have lm: "length ?m = unat len" using data by simp
  have lenS: "unat len \<le> ?S" using nl hs by (simp add: word_le_nat_alt not_less)
  have s3: "s3 = s\<lparr>free_val := fv, mutex_val := mv, slot_area := ?A,
                   hdr := (hdr s)\<lparr>tail := (tail (hdr s) + 1) mod slot_count (hdr s)\<rparr>\<rparr>"
    using ws write_slot_inv[OF inv hs room nl data, of "s\<lparr>free_val := fv, mutex_val := mv\<rparr>"]
    by simp
  have tN: "?t < ?N" using I(1) I(7) by simp
  note off = ring_inv_offset[OF inv hs tN]
  have fits: "?t * ?sz + length (u32_bytes len @ ?m) \<le> length (slot_area s)"
    using off(2) lenS lm by (simp add: length_u32_bytes sizeof_uint32_def)
  have hdr': "hdr s' = (hdr s)\<lparr>tail := (tail (hdr s) + 1) mod slot_count (hdr s)\<rparr>"
    and area': "slot_area s' = ?A"
    and free': "free_val s' = free_val s - 1"
    and filled': "filled_val s' = sem_post (filled_val s)"
    and mutex': "mutex_val s' = sem_post 0"
    using s' s3 fv mv by simp_all
  have lenA: "length ?A = ?N * ?sz"
    using length_memcpy_to[OF fits] I(4) by simp
  have tail': "unat ((tail (hdr s) + 1) mod slot_count (hdr s)) = (?hd + length (q @ [?m])) mod ?N"
  proof -
    have "unat ((tail (hdr s) + 1) mod slot_count (hdr s)) = (?t + 1) mod ?N"
      using tN by (rule unat_succ_mod)
    also have "\<dots> = ((?hd + length q) mod ?N + 1) mod ?N" using I(7) by simp
    also have "\<dots> = (?hd + length q + 1) mod ?N" by (simp add: mod_Suc_eq)
    finally show ?thesis by simp
  qed
  have filled2: "filled_val s' = length (q @ [?m])"
    using filled' I(8) I(2) room sem_post_below[of "length q"] by simp
  have free2: "free_val s' = ?N - length (q @ [?m])"
    using free' I(9) by simp
  have mutex2: "mutex_val s' = 1"
    using mutex' by (simp add: sem_post_def SEM_VALUE_MAX_def)
  have slots: "length ((q @ [?m]) ! i) \<le> ?S \<and>
               slot_holds ?A (((?hd + i) mod ?N) * ?sz) ((q @ [?m]) ! i)"
    if i: "i < length (q @ [?m])" for i
  proof (cases "i < length q")
    case True
    let ?a = "(?hd + i) mod ?N"
    have ne: "?a \<noteq> ?t" using mod_index_neq[OF True room, of ?hd] I(7) by simp
    have li: "length (q ! i) \<le> ?S" using I(11)[OF True] .
    have old: "slot_holds (slot_area s) (?a * ?sz) (q ! i)" using I(12)[OF True] .
    have rd: "sizeof_uint32 + length (q ! i) \<le> ?sz" using li by simp
    have wr: "length (u32_bytes len @ ?m) \<le> ?sz"
      using lenS lm by (simp add: length_u32_bytes sizeof_uint32_def)
    from slots_disjoint[OF ne, of ?sz]
    have "memcpy_from ?A (?a * ?sz) (sizeof_uint32 + length (q ! i))
            = memcpy_from (slot_area s) (?a * ?sz) (sizeof_uint32 + length (q ! i))"
    proof
      assume "?a * ?sz + ?sz \<le> ?t * ?sz"
      then have "?a * ?sz + (sizeof_uint32 + length (q ! i)) \<le> ?t * ?sz" using rd by simp
      then show ?thesis using fits by (rule memcpy_from_to_before)
    next
      assume "?t * ?sz + ?sz \<le> ?a * ?sz"
      then have "?t * ?sz + length (u32_bytes len @ ?m) \<le> ?a * ?sz" using wr by simp
      then show ?thesis using fits by (rule memcpy_from_to_after)
    qed
    with old have "slot_holds ?A (?a * ?sz) (q ! i)" by (simp add: slot_holds_def)
    with li True show ?thesis by (simp add: nth_append)
  next
    case False
    with i have ie: "i = length q" by simp
    have "memcpy_from ?A (?t * ?sz) (length (u32_bytes len @ ?m)) = u32_bytes len @ ?m"
      using fits by (rule memcpy_from_to_same)
    then have "slot_holds ?A (?t * ?sz) ?m"
      using lm by (simp add: slot_holds_def length_u32_bytes sizeof_uint32_def)
    then show ?thesis using ie I(7) lenS lm by simp
  qed
  have "ring_inv s' (q @ [?m])"
    unfolding ring_inv_def Let_def hdr' area'
    using I(1) I(2) I(3) I(5) room lenA tail' filled2 free2 mutex2 slots
    by simp
  then show ?thesis using hdr' by simp
qed


lemma read_message_TrueE:
  assumes "read_message h ev_filled ev_mutex out0 s = Returns (True, out, s')"
  obtains fv mv s3 where
        "sem_wait_intr ev_filled (filled_val s) = Returns (0, fv)"
    and "sem_wait_intr ev_mutex (mutex_val s) = Returns (0, mv)"
    and "read_slot h (s\<lparr>filled_val := fv, mutex_val := mv\<rparr>) = Returns (out, s3)"
    and "s' = s3\<lparr>mutex_val := sem_post (mutex_val s3), free_val := sem_post (free_val s3)\<rparr>"
proof -
  from assms obtain r1 fv where w1: "sem_wait_intr ev_filled (filled_val s) = Returns (r1, fv)"
    and k1: "(let s1 = s\<lparr>filled_val := fv\<rparr> in
       if r1 = - 1 then Returns (False, out0, s1)
       else
         and_then (sem_wait_intr ev_mutex (mutex_val s1)) (\<lambda>(r2, mv).
           let s2 = s1\<lparr>mutex_val := mv\<rparr> in
           if r2 = - 1 then Returns (False, out0, s2)
           else
             and_then (read_slot h s2) (\<lambda>(out, s3).
               let s4 = s3\<lparr>mutex_val := sem_post (mutex_val s3)\<rparr>;
                   s5 = s4\<lparr>free_val := sem_post (free_val s4)\<rparr>
               in Returns (True, out, s5)))) = Returns (True, out, s')"
    by (auto simp: read_message_def and_then_Returns_iff)
  from k1 have r1n: "r1 \<noteq> - 1" by (auto simp: Let_def split: if_splits)
  with sem_wait_intr_cases[OF w1] have r1: "r1 = 0" by auto
  from k1 r1n obtain r2 mv where w2: "sem_wait_intr ev_mutex (mutex_val s) = Returns (r2, mv)"
    and k2: "(let s2 = s\<lparr>filled_val := fv, mutex_val := mv\<rparr> in
           if r2 = - 1 then Returns (False, out0, s2)
           else
             and_then (read_slot h s2) (\<lambda>(out, s3).
               let s4 = s3\<lparr>mutex_val := sem_post (mutex_val s3)\<rparr>;
                   s5 = s4\<lparr>free_val := sem_post (free_val s4)\<rparr>
               in Returns (True, out, s5))) = Returns (True, out, s')"
    by (auto simp: Let_def and_then_Returns_iff)
  from k2 have r2n: "r2 \<noteq> - 1" by (auto simp: Let_def split: if_splits)
  with sem_wait_intr_cases[OF w2] have r2: "r2 = 0" by auto
  from k2 r2n obtain s3 where rs: "read_slot h (s\<lparr>filled_val := fv, mutex_val := mv\<rparr>) = Returns (out, s3)"
    and s': "s' = s3\<lparr>mutex_val := sem_post (mutex_val s3), free_val := sem_post (free_val s3)\<rparr>"
    by (auto simp: Let_def and_then_Returns_iff)
  from that[OF w1[unfolded r1] w2[unfolded r2] rs s'] show thesis .
qed

lemma memcpy_from_prefix:
  "n \<le> k \<Longrightarrow> memcpy_from area off n = take n (memcpy_from area off k)"
  by (simp add: memcpy_from_def min_def)

lemma memcpy_from_suffix:
  "memcpy_from area (off + k) n = drop k (memcpy_from area off (k + n))"
  by (simp add: memcpy_from_def drop_take ac_simps)

lemma unat_of_nat_u32: "n < 4294967296 \<Longrightarrow> unat (of_nat n :: u32) = n"
  by (simp add: unat_of_nat)

lemma read_slot_inv:
  assumes inv: "ring_inv s q" and hs: "slot_size_' h = slot_size (hdr s)"
    and ne: "q \<noteq> []"
    and s2: "hdr s2 = hdr s" "slot_area s2 = slot_area s"
  shows "read_slot h s2 =
           Returns (hd q, s2\<lparr>hdr := (hdr s)\<lparr>head := (head (hdr s) + 1) mod slot_count (hdr s)\<rparr>\<rparr>)"
proof -
  let ?N = "unat (slot_count (hdr s))"
  let ?S = "unat (slot_size (hdr s))"
  let ?sz = "sizeof_uint32 + ?S"
  let ?hd = "unat (head (hdr s))"
  let ?m = "hd q"
  note I = ring_invD[OF inv]
  have q0: "0 < length q" using ne by simp
  have m: "q ! 0 = ?m" using ne by (simp add: hd_conv_nth)
  note off = ring_inv_offset[OF inv hs I(5)]
  have lm: "length ?m \<le> ?S" using I(11)[OF q0] m by simp
  have holds: "memcpy_from (slot_area s) (?hd * ?sz) (sizeof_uint32 + length ?m)
                 = u32_bytes (of_nat (length ?m)) @ ?m"
    using I(12)[OF q0] I(5) m by (simp add: slot_holds_def)
  have pre: "memcpy_from (slot_area s) (?hd * ?sz) sizeof_uint32 = u32_bytes (of_nat (length ?m))"
    using memcpy_from_prefix[of sizeof_uint32 "sizeof_uint32 + length ?m" "slot_area s" "?hd * ?sz"]
      holds by (simp add: length_u32_bytes sizeof_uint32_def)
  have len: "unat (bytes_u32 (memcpy_from (slot_area s) (?hd * ?sz) sizeof_uint32)) = length ?m"
    using lm unat_u32_bound[of "slot_size (hdr s)"]
    by (simp add: pre bytes_u32_bytes unat_of_nat_u32)
  have pay: "memcpy_from (slot_area s) (?hd * ?sz + sizeof_uint32) (length ?m) = ?m"
    using memcpy_from_suffix[of "slot_area s" "?hd * ?sz" sizeof_uint32 "length ?m"] holds
    by (simp add: length_u32_bytes sizeof_uint32_def)
  have fits: "?hd * ?sz + sizeof_uint32 + length ?m \<le> length (slot_area s)"
    using off(2) lm by simp
  have n0: "slot_count (hdr s) \<noteq> 0" using I(1) by auto
  show ?thesis
    unfolding read_slot_def Let_def s2 off(1) len pay
    using fits n0 by simp
qed

lemma read_message_inv:
  assumes inv: "ring_inv s q" and hs: "slot_size_' h = slot_size (hdr s)"
    and res: "read_message h ev_filled ev_mutex out0 s = Returns (True, out, s')"
  shows "q \<noteq> [] \<and> out = hd q \<and> ring_inv s' (tl q) \<and> hdr s' = (hdr s)\<lparr>head := head (hdr s')\<rparr>"
proof -
  let ?N = "unat (slot_count (hdr s))"
  let ?S = "unat (slot_size (hdr s))"
  let ?sz = "sizeof_uint32 + ?S"
  let ?hd = "unat (head (hdr s))"
  let ?h' = "(head (hdr s) + 1) mod slot_count (hdr s)"
  note I = ring_invD[OF inv]
  from res obtain fv mv s3 where
        w1: "sem_wait_intr ev_filled (filled_val s) = Returns (0, fv)"
    and w2: "sem_wait_intr ev_mutex (mutex_val s) = Returns (0, mv)"
    and rs: "read_slot h (s\<lparr>filled_val := fv, mutex_val := mv\<rparr>) = Returns (out, s3)"
    and s': "s' = s3\<lparr>mutex_val := sem_post (mutex_val s3), free_val := sem_post (free_val s3)\<rparr>"
    by (rule read_message_TrueE)
  from sem_wait_intr_cases[OF w1] have fpos: "0 < filled_val s" and fv: "fv = filled_val s - 1" by auto
  from sem_wait_intr_cases[OF w2] I(10) have mv: "mv = 0" by auto
  from fpos I(8) obtain x xs where qc: "q = x # xs" by (cases q) auto
  then have ne: "q \<noteq> []" by simp
  have lq: "length q = Suc (length xs)" using qc by simp
  from rs read_slot_inv[OF inv hs ne, of "s\<lparr>filled_val := fv, mutex_val := mv\<rparr>"]
  have out: "out = hd q"
    and s3: "s3 = s\<lparr>filled_val := fv, mutex_val := mv, hdr := (hdr s)\<lparr>head := ?h'\<rparr>\<rparr>"
    by simp_all
  have hdr': "hdr s' = (hdr s)\<lparr>head := ?h'\<rparr>"
    and area': "slot_area s' = slot_area s"
    and filled': "filled_val s' = filled_val s - 1"
    and free': "free_val s' = sem_post (free_val s)"
    and mutex': "mutex_val s' = sem_post 0"
    using s' s3 fv mv by simp_all
  have h': "unat ?h' = (?hd + 1) mod ?N" using I(5) by (rule unat_succ_mod)
  have h'N: "unat ?h' < ?N" using h' I(1) by simp
  have shift: "(unat ?h' + k) mod ?N = (?hd + Suc k) mod ?N" for k
    unfolding h' by (simp add: mod_add_left_eq)
  have tail': "unat (tail (hdr s)) = (unat ?h' + length xs) mod ?N"
    unfolding shift using I(7) lq by simp
  have filled2: "filled_val s' = length xs" using filled' I(8) lq by simp
  have "?N - length q < SEM_VALUE_MAX" using I(2) I(1) lq by simp
  then have "sem_post (?N - length q) = Suc (?N - length q)" by (rule sem_post_below)
  then have free2: "free_val s' = ?N - length xs"
    using free' I(9) I(6) lq by simp
  have mutex2: "mutex_val s' = 1"
    using mutex' by (simp add: sem_post_def SEM_VALUE_MAX_def)
  have lxs: "length xs \<le> ?N" using I(6) lq by simp
  have slots: "length (xs ! i) \<le> ?S \<and>
               slot_holds (slot_area s) (((unat ?h' + i) mod ?N) * ?sz) (xs ! i)"
    if i: "i < length xs" for i
  proof -
    have si: "Suc i < length q" using i lq by simp
    have nth: "q ! Suc i = xs ! i" using qc by simp
    show ?thesis using I(11)[OF si] I(12)[OF si] unfolding shift nth by simp
  qed
  have "ring_inv s' xs"
    unfolding ring_inv_def Let_def hdr' area'
    using I(1) I(2) I(3) I(4) lxs h'N tail' filled2 free2 mutex2 slots
    by simp
  with ne out qc hdr' show ?thesis by simp
qed

section \<open>Creation and runs\<close>

lemma total_no_wrap:
  fixes n s :: u32
  assumes "unat n \<le> SEM_VALUE_MAX"
  shows "size_t (sizeof_RingHeader + size_t (unat n * size_t (sizeof_uint32 + unat s)))
           = sizeof_RingHeader + unat n * (sizeof_uint32 + unat s)"
proof -
  have s: "sizeof_uint32 + unat s \<le> 4294967299"
    using unat_u32_bound[of s] by (simp add: sizeof_uint32_def)
  have n: "unat n \<le> 2147483647" using assms by (simp add: SEM_VALUE_MAX_def)
  have "unat n * (sizeof_uint32 + unat s) \<le> 2147483647 * 4294967299"
    using n s by (rule mult_le_mono)
  then have b: "unat n * (sizeof_uint32 + unat s) \<le> 9223372043297226753" by simp
  have 1: "size_t (sizeof_uint32 + unat s) = sizeof_uint32 + unat s"
    using s by (simp add: size_t_def)
  have 2: "size_t (unat n * (sizeof_uint32 + unat s)) = unat n * (sizeof_uint32 + unat s)"
    using b by (simp add: size_t_def)
  have 3: "size_t (sizeof_RingHeader + unat n * (sizeof_uint32 + unat s))
             = sizeof_RingHeader + unat n * (sizeof_uint32 + unat s)"
    using b by (simp add: size_t_def sizeof_RingHeader_def)
  show ?thesis by (simp only: 1 2 3)
qed

lemma create_or_open_createE:
  assumes "create_or_open env name n_slots n_bytes True = Returns (Some (h, s0))"
  obtains "unat n_slots \<le> SEM_VALUE_MAX"
    and "sizeof_RingHeader + unat n_slots * (sizeof_uint32 + unat n_bytes) < 2 ^ 63"
    and "h = (new_handle name n_slots n_bytes True)
               \<lparr>map_size_' := sizeof_RingHeader + unat n_slots * (sizeof_uint32 + unat n_bytes)\<rparr>"
    and "s0 = \<lparr>hdr = \<lparr>magic = RING_MAGIC, version = 1, slot_count = n_slots,
                        slot_size = n_bytes, head = 0, tail = 0\<rparr>,
                slot_area = replicate (unat n_slots * (sizeof_uint32 + unat n_bytes)) 0,
                free_val = unat n_slots, filled_val = 0, mutex_val = 1\<rparr>"
proof -
  let ?p = "new_handle name n_slots n_bytes True"
  from assms obtain m where m: "init_map env True ?p = Returns m"
    by (cases "init_map env True ?p") (simp_all add: create_or_open_def)
  from assms m obtain t where mt: "m = Inr t"
    by (cases m) (simp_all add: create_or_open_def)
  obtain p' hd' a where t: "t = (p', hd', a)" by (cases t)
  have im: "init_map env True ?p = Returns (Inr (p', hd', a))" using m mt t by simp
  from assms im
  have rest: "(if \<not> sem_open_create env (sem_free_name_' p') (unat n_slots) then Returns None
               else if \<not> sem_open_create env (sem_filled_name_' p') 0 then Returns None
               else if \<not> sem_open_create env (sem_mutex_name_' p') 1 then Returns None
               else Returns (Some (p',
                      \<lparr>hdr = hd', slot_area = a, free_val = unat n_slots,
                       filled_val = 0, mutex_val = 1\<rparr>))) = Returns (Some (h, s0))"
    by (simp add: create_or_open_def)
  from rest have so: "sem_open_create env (sem_free_name_' p') (unat n_slots)"
    and hp: "h = p'"
    and s0: "s0 = \<lparr>hdr = hd', slot_area = a, free_val = unat n_slots, filled_val = 0, mutex_val = 1\<rparr>"
    by (auto split: if_splits)
  from so have max: "unat n_slots \<le> SEM_VALUE_MAX" by (simp add: sem_open_create_def)
  have sz: "slot_size_' ?p = n_bytes" "slot_count_' ?p = n_slots" by (simp_all add: new_handle_def)
  note tot = total_no_wrap[OF max, of n_bytes]
  from im have ft: "ftruncate_succeeds env (sizeof_RingHeader + unat n_slots * (sizeof_uint32 + unat n_bytes))"
    and p': "p' = ?p\<lparr>map_size_' := sizeof_RingHeader + unat n_slots * (sizeof_uint32 + unat n_bytes)\<rparr>"
    and hd': "hd' = \<lparr>magic = RING_MAGIC, version = 1, slot_count = n_slots,
                        slot_size = n_bytes, head = 0, tail = 0\<rparr>"
    and a: "a = replicate (unat n_slots * (sizeof_uint32 + unat n_bytes)) 0"
    unfolding init_map_def Let_def sz tot
    by (auto split: if_splits simp: sz)
  from ft have lt: "sizeof_RingHeader + unat n_slots * (sizeof_uint32 + unat n_bytes) < 2 ^ 63"
    by (simp add: ftruncate_succeeds_def)
  show thesis using that[OF max lt] hp p' s0 hd' a by simp
qed

lemma create_inv:
  assumes c: "create_or_open env name n_slots n_bytes True = Returns (Some (h, s0))"
    and n0: "n_slots \<noteq> 0"
  shows "ring_inv s0 []" and "slot_count (hdr s0) = n_slots" and "slot_size (hdr s0) = n_bytes"
    and "slot_size_' h = n_bytes"
proof -
  from c show "slot_count (hdr s0) = n_slots" and "slot_size (hdr s0) = n_bytes"
    and "slot_size_' h = n_bytes"
    by (auto elim!: create_or_open_createE simp: new_handle_def)
  have "0 < unat n_slots" using n0 by (simp add: unat_gt_0)
  with c show "ring_inv s0 []"
    by (auto elim!: create_or_open_createE simp: ring_inv_def Let_def)
qed

lemma run_calls_inv:
  assumes "ring_inv s q"
    and "\<forall>c \<in> set cs. slot_size_' (caller c) = slot_size (hdr s)"
    and "run_calls cs s = Some (outs, s')"
  shows "ring_inv s' (drop (length outs) (q @ written cs)) \<and>
         outs = take (length outs) (q @ written cs) \<and>
         length outs = count_reads cs \<and> count_reads cs \<le> length q + count_writes cs \<and>
         length (written cs) = count_writes cs \<and>
         slot_count (hdr s') = slot_count (hdr s) \<and> slot_size (hdr s') = slot_size (hdr s)"
  using assms
proof (induction cs arbitrary: s q outs)
  case Nil
  then show ?case by simp
next
  case (Cons c cs)
  show ?case
  proof (cases c)
    case (Write h data len ef em)
    from Cons.prems(3) Write obtain s1 where
      w: "write_message h ef em data len s = Returns (True, s1)" and r: "run_calls cs s1 = Some (outs, s')"
      by (auto split: outcome.splits bool.splits prod.splits)
    have hs: "slot_size_' h = slot_size (hdr s)" using Cons.prems(2) Write by simp
    from write_message_inv[OF Cons.prems(1) hs w]
    have inv1: "ring_inv s1 (q @ [take (unat len) data])"
      and h1: "hdr s1 = (hdr s)\<lparr>tail := tail (hdr s1)\<rparr>" by simp_all
    have sc: "slot_count (hdr s1) = slot_count (hdr s)" and ss: "slot_size (hdr s1) = slot_size (hdr s)"
      by (subst h1, simp)+
    have c1: "\<forall>c \<in> set cs. slot_size_' (caller c) = slot_size (hdr s1)"
      using Cons.prems(2) ss by simp
    have e: "(q @ [take (unat len) data]) @ written cs = q @ written (c # cs)"
      using Write by simp
    from Cons.IH[OF inv1 c1 r]
    have A: "ring_inv s' (drop (length outs) (q @ written (c # cs)))"
      and B: "outs = take (length outs) (q @ written (c # cs))"
      and C: "length outs = count_reads cs"
      and D: "count_reads cs \<le> length (q @ [take (unat len) data]) + count_writes cs"
      and E: "length (written cs) = count_writes cs"
      and F: "slot_count (hdr s') = slot_count (hdr s1)" "slot_size (hdr s') = slot_size (hdr s1)"
      unfolding e by blast+
    have cnt: "count_reads (c # cs) = count_reads cs" "count_writes (c # cs) = Suc (count_writes cs)"
      "length (written (c # cs)) = Suc (length (written cs))"
      using Write by simp_all
    have C': "length outs = count_reads (c # cs)" using C cnt by simp
    have D': "count_reads (c # cs) \<le> length q + count_writes (c # cs)" using D cnt by simp
    have E': "length (written (c # cs)) = count_writes (c # cs)" using E cnt by simp
    have F': "slot_count (hdr s') = slot_count (hdr s)" "slot_size (hdr s') = slot_size (hdr s)"
      using F sc ss by simp_all
    show ?thesis by (intro conjI A B C' D' E' F')
  next
    case (Read h ef em)
    from Cons.prems(3) Read obtain out s1 outs1 where
      rd: "read_message h ef em [] s = Returns (True, out, s1)"
      and r: "run_calls cs s1 = Some (outs1, s')" and o: "outs = out # outs1"
      by (auto split: outcome.splits bool.splits prod.splits option.splits)
    have hs: "slot_size_' h = slot_size (hdr s)" using Cons.prems(2) Read by simp
    from read_message_inv[OF Cons.prems(1) hs rd]
    have ne: "q \<noteq> []" and out: "out = hd q" and inv1: "ring_inv s1 (tl q)"
      and h1: "hdr s1 = (hdr s)\<lparr>head := head (hdr s1)\<rparr>" by simp_all
    have sc: "slot_count (hdr s1) = slot_count (hdr s)" and ss: "slot_size (hdr s1) = slot_size (hdr s)"
      by (subst h1, simp)+
    have c1: "\<forall>c \<in> set cs. slot_size_' (caller c) = slot_size (hdr s1)"
      using Cons.prems(2) ss by simp
    from ne obtain x xs where q: "q = x # xs" by (cases q) auto
    have e: "q @ written (c # cs) = x # (tl q @ written cs)"
      using Read q by simp
    from Cons.IH[OF inv1 c1 r]
    have A: "ring_inv s' (drop (length outs1) (tl q @ written cs))"
      and B: "outs1 = take (length outs1) (tl q @ written cs)"
      and C: "length outs1 = count_reads cs"
      and D: "count_reads cs \<le> length (tl q) + count_writes cs"
      and E: "length (written cs) = count_writes cs"
      and F: "slot_count (hdr s') = slot_count (hdr s1)" "slot_size (hdr s') = slot_size (hdr s1)"
      by blast+
    have cnt: "count_reads (c # cs) = Suc (count_reads cs)" "count_writes (c # cs) = count_writes cs"
      "length (written (c # cs)) = length (written cs)"
      using Read by simp_all
    have lo: "length outs = Suc (length outs1)" using o by simp
    have B': "outs = take (length outs) (q @ written (c # cs))"
      unfolding e lo using B o out q by simp
    have A': "ring_inv s' (drop (length outs) (q @ written (c # cs)))"
      unfolding e lo using A by simp
    have D': "count_reads (c # cs) \<le> length q + count_writes (c # cs)"
      unfolding cnt using D q by simp
    have C': "length outs = count_reads (c # cs)" using C cnt lo by simp
    have E': "length (written (c # cs)) = count_writes (c # cs)" using E cnt by simp
    have F': "slot_count (hdr s') = slot_count (hdr s)" "slot_size (hdr s') = slot_size (hdr s)"
      using F sc ss by simp_all
    show ?thesis by (intro conjI A' B' C' D' E' F')
  qed
qed

section \<open>Concrete runs\<close>

lemmas eval_defs =
  sem_open_retry.simps [of _ _ 0]
  create_or_open_def create_or_open_part001_def init_map_def init_map_part001_def new_handle_def
  sanitize_sem_def size_t_def sizeof_RingHeader_def sizeof_uint32_def ftruncate_succeeds_def
  mmap_succeeds_def sem_open_create_def SEM_VALUE_MAX_def demo_env_def attach_env_def
  write_message_def write_message_part001_def read_message_def read_message_part001_def
  write_slot_def read_slot_def slot_offset_def memcpy_to_def memcpy_from_def u32_bytes_def
  bytes_u32_def sem_post_def RING_MAGIC_def Let_def

lemma replicate_5: "replicate 5 (0::byte) = [0, 0, 0, 0, 0]"
  by (simp add: eval_nat_numeral)

lemma replicate_24: "replicate 24 (0::byte) =
   [0, 0, 0, 0, 0, 0, 0, 0, 0, 0, 0, 0, 0, 0, 0, 0, 0, 0, 0, 0, 0, 0, 0, 0]"
  by (simp add: eval_nat_numeral)

lemmas eval_rep = replicate_5 replicate_24

lemma ring1_create:
  "create_or_open demo_env ''/r'' 1 1 True = Returns (Some (ring1_handle, ring1_created))"
  by (simp add: eval_defs eval_rep ring1_handle_def ring1_created_def)

lemma ring0_create:
  "create_or_open demo_env ''/r'' 0 1 True = Returns (Some (ring0_handle, ring0_created))"
  by (simp add: eval_defs eval_rep ring0_handle_def ring0_created_def)

lemma ring2_create:
  "create_or_open demo_env ''/ring_t2'' 2 8 True = Returns (Some (ring2_owner, ring2_created))"
  by (simp add: eval_defs eval_rep ring2_owner_def ring2_created_def)

lemma ring2_attach:
  "create_or_open (attach_env 76 ring2_created) ''/ring_t2'' 1 1 False
     = Returns (Some (ring2_attached, ring2_created))"
  by (simp add: eval_defs eval_rep ring2_owner_def ring2_created_def ring2_attached_def)

lemma ring1_write:
  "write_message ring1_handle [SemAcquire] [SemAcquire] [0x61] 1 ring1_created = Returns (True, ring1_full)"
  by (simp add: eval_defs eval_rep ring1_handle_def ring1_created_def ring1_full_def)

lemma ring1_write_part001:
  "write_message_part001 ring1_handle [SemAcquire] [SemAcquire] [0x61] 1 ring1_created
     = Returns (False, ring1_created\<lparr>free_val := 0\<rparr>)"
  by (simp add: eval_defs eval_rep ring1_handle_def ring1_created_def ring1_full_def)

lemma scenario2_run:
  "run_calls scenario2 ring2_created = Some ([[0x61], [0x62, 0x62], [0x63, 0x63, 0x63]], ring2_final)"
  by (simp add: eval_defs eval_rep scenario2_def ring2_owner_def ring2_created_def ring2_attached_def ring2_final_def)


lemma run_from_created:
  assumes c: "create_or_open env name n_slots n_bytes True = Returns (Some (h0, s0))"
    and n0: "n_slots \<noteq> 0"
    and hs: "\<forall>c \<in> set cs. slot_size_' (caller c) = n_bytes"
    and r: "run_calls cs s0 = Some (outs, s)"
  shows "ring_inv s (drop (count_reads cs) (written cs))"
    and "outs = take (count_reads cs) (written cs)"
    and "length outs = count_reads cs"
    and "count_reads cs \<le> count_writes cs"
    and "length (written cs) = count_writes cs"
    and "slot_count (hdr s) = n_slots"
    and "slot_size (hdr s) = n_bytes"
proof -
  note ci = create_inv[OF c n0]
  have hs': "\<forall>c \<in> set cs. slot_size_' (caller c) = slot_size (hdr s0)"
    using hs ci(3) by simp
  note R = run_calls_inv[OF ci(1) hs' r, unfolded append_Nil]
  have A: "ring_inv s (drop (length outs) (written cs))"
    and B: "outs = take (length outs) (written cs)"
    and C: "length outs = count_reads cs"
    and D0: "count_reads cs \<le> length ([] :: byte list list) + count_writes cs"
    and E: "length (written cs) = count_writes cs"
    and F: "slot_count (hdr s) = slot_count (hdr s0)" "slot_size (hdr s) = slot_size (hdr s0)"
    using R by blast+
  have D: "count_reads cs \<le> count_writes cs" using D0 by simp
  show "ring_inv s (drop (count_reads cs) (written cs))" using A unfolding C .
  show "outs = take (count_reads cs) (written cs)" using B unfolding C .
  show "length outs = count_reads cs" by (rule C)
  show "count_reads cs \<le> count_writes cs" by (rule D)
  show "length (written cs) = count_writes cs" by (rule E)
  show "slot_count (hdr s) = n_slots" using F ci(2) by simp
  show "slot_size (hdr s) = n_bytes" using F ci(3) by simp
qed

section \<open>Further lemmas for the claims\<close>

lemma tail_head_mod:
  fixes t hx k N :: nat
  assumes "t = (hx + k) mod N"
  shows "(int t - int hx) mod int N = int k mod int N"
proof -
  have "int t = (int hx + int k) mod int N"
    using assms by (simp add: zmod_int)
  then have "(int t - int hx) mod int N = ((int hx + int k) mod int N - int hx) mod int N"
    by simp
  also have "\<dots> = (int hx + int k - int hx) mod int N"
    by (rule mod_diff_left_eq)
  finally show ?thesis by simp
qed

lemma scenario2_start_run:
  "run_calls scenario2_start ring2_created = Some ([[0x61]], ring2_after_read)"
  by (simp add: eval_defs eval_rep scenario2_start_def scenario2_def ring2_owner_def
      ring2_created_def ring2_attached_def ring2_after_read_def)

lemma ring1_read:
  "read_message ring1_handle [SemAcquire] [SemAcquire] [] ring1_full
     = Returns (True, [0x61], ring1_full\<lparr>free_val := 1, filled_val := 0\<rparr>)"
  by (simp add: eval_defs ring1_handle_def ring1_full_def)

lemma ring1_read_part001:
  "read_message_part001 ring1_handle [SemAcquire] [SemAcquire] [] ring1_full
     = Returns (False, [], ring1_full\<lparr>filled_val := 0\<rparr>)"
  by (simp add: eval_defs ring1_handle_def ring1_full_def)

lemma init_map_names:
  "init_map env c p = Returns (Inr (p', h, a)) \<Longrightarrow>
     sem_free_name_' p' = sem_free_name_' p \<and> sem_filled_name_' p' = sem_filled_name_' p \<and>
     sem_mutex_name_' p' = sem_mutex_name_' p"
  by (auto simp: init_map_def Let_def split: if_splits)

lemma create_or_open_names:
  assumes "create_or_open env R n s c = Returns (Some (h, st))"
  shows "sem_free_name_' h = sanitize_sem (R @ ''_free'') \<and>
         sem_filled_name_' h = sanitize_sem (R @ ''_filled'') \<and>
         sem_mutex_name_' h = sanitize_sem (R @ ''_mutex'')"
proof -
  obtain p' hd' a where im: "init_map env c (new_handle R n s c) = Returns (Inr (p', hd', a))"
    and hp: "h = p'"
    using assms
    by (cases "init_map env c (new_handle R n s c)")
       (auto simp: create_or_open_def Let_def split: sum.splits if_splits)
  from init_map_names[OF im] hp show ?thesis
    by (simp add: new_handle_def)
qed

lemma ipc_demo_create:
  "create_or_open demo_env ''/ipc_demo_1234'' 8 256 True
     = Returns (Some (ipc_demo_handle, ipc_demo_created))"
  by (simp add: eval_defs ipc_demo_handle_def ipc_demo_created_def)

lemma attach_too_small:
  assumes "st_size env < size_t (sizeof_RingHeader + size_t (unat n_slots * size_t (sizeof_uint32 + unat n_bytes)))"
  shows "create_or_open env name n_slots n_bytes False = Returns None"
  using assms by (simp add: create_or_open_def init_map_def new_handle_def Let_def)

lemma attach_too_small_part001:
  assumes "st_size env < sizeof_RingHeader"
  shows "create_or_open_part001 env name n_slots n_bytes False = Returns None"
  using assms by (simp add: create_or_open_part001_def init_map_part001_def new_handle_def Let_def)

lemma total_exact:
  fixes n s :: u32
  assumes "sizeof_RingHeader + unat n * (sizeof_uint32 + unat s) < 2 ^ 64"
  shows "size_t (sizeof_RingHeader + size_t (unat n * size_t (sizeof_uint32 + unat s)))
           = sizeof_RingHeader + unat n * (sizeof_uint32 + unat s)"
proof -
  have 1: "size_t (sizeof_uint32 + unat s) = sizeof_uint32 + unat s"
    using unat_u32_bound[of s] by (simp add: size_t_def sizeof_uint32_def)
  have 2: "size_t (unat n * (sizeof_uint32 + unat s)) = unat n * (sizeof_uint32 + unat s)"
    using assms by (simp add: size_t_def)
  have 3: "size_t (sizeof_RingHeader + unat n * (sizeof_uint32 + unat s))
             = sizeof_RingHeader + unat n * (sizeof_uint32 + unat s)"
    using assms by (simp add: size_t_def)
  show ?thesis by (simp only: 1 2 3)
qed

lemma init_map_too_small_iff:
  assumes "0 \<le> shm_open_ret env" and "fstat_ret env = 0"
  shows "(init_map env False (new_handle name n_slots n_bytes False) = Returns (Inl ShmTooSmall))
           = (st_size env
                < size_t (sizeof_RingHeader + size_t (unat n_slots * size_t (sizeof_uint32 + unat n_bytes))))"
  using assms by (simp add: init_map_def new_handle_def Let_def)

lemma init_map_part001_too_small_iff:
  assumes "0 \<le> shm_open_ret env" and "fstat_ret env = 0"
  shows "(init_map_part001 env False (new_handle name n_slots n_bytes False) = Returns (Inl ShmTooSmall))
           = (st_size env < sizeof_RingHeader)"
  using assms by (simp add: init_map_part001_def new_handle_def Let_def)

lemma sem_wait_intr_zero:
  "sem_wait_intr es 0 = Blocks \<or> sem_wait_intr es 0 = Returns (- 1, 0)"
proof (induction es)
  case Nil
  then show ?case by simp
next
  case (Cons e es)
  then show ?case by (cases e) auto
qed

lemma write_message_no_token:
  assumes "free_val s = 0"
  shows "write_message h ef em data len s = Blocks \<or> write_message h ef em data len s = Returns (False, s)"
proof (cases "slot_size_' h < len")
  case True
  then show ?thesis by (simp add: write_message_def)
next
  case False
  have s: "s\<lparr>free_val := 0\<rparr> = s" using assms by (cases s) simp
  from sem_wait_intr_zero[of ef] show ?thesis
    using False assms s by (auto simp: write_message_def)
qed

lemma read_message_no_token:
  assumes "filled_val s = 0"
  shows "read_message h ef em out0 s = Blocks \<or> read_message h ef em out0 s = Returns (False, out0, s)"
proof -
  have s: "s\<lparr>filled_val := 0\<rparr> = s" using assms by (cases s) simp
  from sem_wait_intr_zero[of ef] show ?thesis
    using assms s by (auto simp: read_message_def)
qed

lemma create_zero_slots:
  assumes "os_ok env"
  shows "create_or_open env name 0 n_bytes True =
           Returns (Some ((new_handle name 0 n_bytes True)\<lparr>map_size_' := sizeof_RingHeader\<rparr>,
             \<lparr>hdr = \<lparr>magic = RING_MAGIC, version = 1, slot_count = 0, slot_size = n_bytes,
                      head = 0, tail = 0\<rparr>,
              slot_area = [], free_val = 0, filled_val = 0, mutex_val = 1\<rparr>))"
  using assms
  by (simp add: os_ok_def create_or_open_def init_map_def new_handle_def size_t_def
      sizeof_RingHeader_def ftruncate_succeeds_def mmap_succeeds_def sem_open_create_def
      SEM_VALUE_MAX_def Let_def)

lemma write_message_hdr:
  assumes "write_message h ef em data len s = Returns (b, s')"
  shows "hdr s' = hdr s \<or>
         (slot_count (hdr s) \<noteq> 0 \<and>
          hdr s' = (hdr s)\<lparr>tail := (tail (hdr s) + 1) mod slot_count (hdr s)\<rparr>)"
  using assms
  by (auto simp: write_message_def write_slot_def and_then_Returns_iff Let_def split: if_splits)

lemma read_message_hdr:
  assumes "read_message h ef em out0 s = Returns (b, out, s')"
  shows "hdr s' = hdr s \<or>
         (slot_count (hdr s) \<noteq> 0 \<and>
          hdr s' = (hdr s)\<lparr>head := (head (hdr s) + 1) mod slot_count (hdr s)\<rparr>)"
  using assms
  by (auto simp: read_message_def read_slot_def and_then_Returns_iff Let_def split: if_splits)

lemma u32_mod_less: "(n :: u32) \<noteq> 0 \<Longrightarrow> x mod n < n"
  by (simp add: word_mod_less_divisor word_neq_0_conv)

lemma demo_env_ok: "os_ok demo_env"
  by (simp add: os_ok_def demo_env_def)

lemma ring0_write:
  "write_message ring0_handle [SemAcquire] [SemAcquire] [0x61] 1 ring0_created = Blocks"
  by (simp add: eval_defs ring0_handle_def ring0_created_def)

lemma ring0_read:
  "read_message ring0_handle [SemAcquire] [SemAcquire] [] ring0_created = Blocks"
  by (simp add: eval_defs ring0_handle_def ring0_created_def)

lemma created_indices:
  assumes c: "create_or_open env name n_slots n_bytes True = Returns (Some (h0, s0))"
  shows "slot_count (hdr s0) = n_slots \<and> head (hdr s0) = 0 \<and> tail (hdr s0) = 0"
  using c by (auto elim!: create_or_open_createE)

lemma init_map_attach:
  assumes "init_map env False p = Returns (Inr (p', hd', a))"
  shows "hd' = hdr (existing env) \<and> a = slot_area (existing env) \<and>
         slot_size_' p' = slot_size (hdr (existing env)) \<and>
         slot_count_' p' = slot_count (hdr (existing env))"
  using assms by (auto simp: init_map_def Let_def split: if_splits)

lemma attached_handle:
  assumes "create_or_open env name n_slots n_bytes False = Returns (Some (h, s))"
  shows "s = existing env \<and> slot_size_' h = slot_size (hdr s) \<and> slot_count_' h = slot_count (hdr s)"
proof (cases "init_map env False (new_handle name n_slots n_bytes False)")
  case (Returns m)
  show ?thesis
  proof (cases m)
    case (Inl e)
    with assms Returns show ?thesis by (simp add: create_or_open_def)
  next
    case (Inr t)
    obtain p' hd' a where t: "t = (p', hd', a)" by (cases t)
    from assms Returns Inr t have hs: "h = p'" "s = existing env"
      by (auto simp: create_or_open_def Let_def split: if_splits)
    from init_map_attach[OF Returns[unfolded Inr t]] hs show ?thesis by simp
  qed
next
  case Blocks
  with assms show ?thesis by (simp add: create_or_open_def)
next
  case (Crashes f)
  with assms show ?thesis by (simp add: create_or_open_def)
qed

lemma zero_slots_step:
  "(os_ok env \<longrightarrow>
      (\<exists>h s0. create_or_open env name 0 n_bytes True = Returns (Some (h, s0)) \<and>
         slot_count (hdr s0) = 0 \<and> free_val s0 = 0 \<and> filled_val s0 = 0 \<and>
         (\<forall>ef em data len.
            write_message h ef em data len s0 = Blocks \<or>
            write_message h ef em data len s0 = Returns (False, s0)) \<and>
         (\<forall>ef em out0.
            read_message h ef em out0 s0 = Blocks \<or>
            read_message h ef em out0 s0 = Returns (False, out0, s0)))) \<and>
   (slot_count (hdr s) \<noteq> 0 \<and> head (hdr s) < slot_count (hdr s) \<and>
    tail (hdr s) < slot_count (hdr s) \<longrightarrow>
      (\<forall>h ef em data len b s'.
         write_message h ef em data len s = Returns (b, s') \<longrightarrow>
           slot_count (hdr s') = slot_count (hdr s) \<and>
           head (hdr s') < slot_count (hdr s') \<and> tail (hdr s') < slot_count (hdr s')) \<and>
      (\<forall>h ef em out0 b out s'.
         read_message h ef em out0 s = Returns (b, out, s') \<longrightarrow>
           slot_count (hdr s') = slot_count (hdr s) \<and>
           head (hdr s') < slot_count (hdr s') \<and> tail (hdr s') < slot_count (hdr s')))"
proof (intro conjI impI)
  assume ok: "os_ok env"
  let ?h = "(new_handle name 0 n_bytes True)\<lparr>map_size_' := sizeof_RingHeader\<rparr>"
  let ?s = "\<lparr>hdr = \<lparr>magic = RING_MAGIC, version = 1, slot_count = 0, slot_size = n_bytes,
                      head = 0, tail = 0\<rparr>,
              slot_area = [], free_val = 0, filled_val = 0, mutex_val = 1\<rparr>"
  have c: "create_or_open env name 0 n_bytes True = Returns (Some (?h, ?s))"
    using ok by (rule create_zero_slots)
  have w: "\<forall>ef em data len.
            write_message ?h ef em data len ?s = Blocks \<or>
            write_message ?h ef em data len ?s = Returns (False, ?s)"
    by (intro allI write_message_no_token) simp
  have r: "\<forall>ef em out0.
            read_message ?h ef em out0 ?s = Blocks \<or>
            read_message ?h ef em out0 ?s = Returns (False, out0, ?s)"
    by (intro allI read_message_no_token) simp
  show "\<exists>h s0. create_or_open env name 0 n_bytes True = Returns (Some (h, s0)) \<and>
         slot_count (hdr s0) = 0 \<and> free_val s0 = 0 \<and> filled_val s0 = 0 \<and>
         (\<forall>ef em data len.
            write_message h ef em data len s0 = Blocks \<or>
            write_message h ef em data len s0 = Returns (False, s0)) \<and>
         (\<forall>ef em out0.
            read_message h ef em out0 s0 = Blocks \<or>
            read_message h ef em out0 s0 = Returns (False, out0, s0))"
    using c w r by (intro exI[of _ ?h] exI[of _ ?s]) simp
next
  assume a: "slot_count (hdr s) \<noteq> 0 \<and> head (hdr s) < slot_count (hdr s) \<and>
    tail (hdr s) < slot_count (hdr s)"
  show "\<forall>h ef em data len b s'.
         write_message h ef em data len s = Returns (b, s') \<longrightarrow>
           slot_count (hdr s') = slot_count (hdr s) \<and>
           head (hdr s') < slot_count (hdr s') \<and> tail (hdr s') < slot_count (hdr s')"
  proof (intro allI impI)
    fix h ef em data len b s'
    assume "write_message h ef em data len s = Returns (b, s')"
    from write_message_hdr[OF this] a u32_mod_less[of "slot_count (hdr s)" "tail (hdr s) + 1"]
    show "slot_count (hdr s') = slot_count (hdr s) \<and>
           head (hdr s') < slot_count (hdr s') \<and> tail (hdr s') < slot_count (hdr s')"
      by auto
  qed
next
  assume a: "slot_count (hdr s) \<noteq> 0 \<and> head (hdr s) < slot_count (hdr s) \<and>
    tail (hdr s) < slot_count (hdr s)"
  show "\<forall>h ef em out0 b out s'.
         read_message h ef em out0 s = Returns (b, out, s') \<longrightarrow>
           slot_count (hdr s') = slot_count (hdr s) \<and>
           head (hdr s') < slot_count (hdr s') \<and> tail (hdr s') < slot_count (hdr s')"
  proof (intro allI impI)
    fix h ef em out0 b out s'
    assume "read_message h ef em out0 s = Returns (b, out, s')"
    from read_message_hdr[OF this] a u32_mod_less[of "slot_count (hdr s)" "head (hdr s) + 1"]
    show "slot_count (hdr s') = slot_count (hdr s) \<and>
           head (hdr s') < slot_count (hdr s') \<and> tail (hdr s') < slot_count (hdr s')"
      by auto
  qed
qed

section \<open>The claims\<close>

text \<open>
  Claim C1. A ring is created with \<open>slot_count \<ge> 1\<close>; processes that hold a handle of
  it (the owner's, or an attached one, whose \<^verbatim>\<open>slot_size_\<close> is the header's) then make
  any sequence of \<^verbatim>\<open>write_message\<close> and \<^verbatim>\<open>read_message\<close> calls, one after the other,
  every one of which returns \<^verbatim>\<open>true\<close>. Then the payloads the reads deliver are, byte
  for byte and in order, the first payloads that were written: one message per read,
  first in, first out.
\<close>

theorem C1_fifo:
  assumes "create_or_open env name n_slots n_bytes True = Returns (Some (h0, s0))"
    and "n_slots \<noteq> 0"
    and "\<forall>c \<in> set cs. slot_size_' (caller c) = n_bytes"
    and "run_calls cs s0 = Some (outs, s)"
  shows "outs = take (count_reads cs) (written cs) \<and> length outs = count_reads cs \<and>
         count_reads cs \<le> length (written cs)"
  using run_from_created(2,3,4,5)[OF assms] by simp

text \<open>
  The second scenario of the specification, with the reads made through an attached
  handle: \<^verbatim>\<open>"a"\<close>, \<^verbatim>\<open>"bb"\<close>, \<^verbatim>\<open>"ccc"\<close> come out in that order.
\<close>

theorem C1_fifo_witness:
  "create_or_open demo_env ''/ring_t2'' 2 8 True = Returns (Some (ring2_owner, ring2_created)) \<and>
   create_or_open (attach_env 76 ring2_created) ''/ring_t2'' 1 1 False
     = Returns (Some (ring2_attached, ring2_created)) \<and>
   (2 :: u32) \<noteq> 0 \<and>
   map (\<lambda>c. slot_size_' (caller c)) scenario2 = [8, 8, 8, 8, 8, 8] \<and>
   run_calls scenario2 ring2_created
     = Some ([[0x61], [0x62, 0x62], [0x63, 0x63, 0x63]], ring2_final) \<and>
   [[0x61], [0x62, 0x62], [0x63, 0x63, 0x63]] = take (count_reads scenario2) (written scenario2) \<and>
   count_reads scenario2 = 3"
proof -
  have n: "(2 :: u32) \<noteq> 0" by simp
  have hs: "\<forall>c \<in> set scenario2. slot_size_' (caller c) = 8"
    by (simp add: scenario2_def ring2_owner_def ring2_attached_def)
  have hm: "map (\<lambda>c. slot_size_' (caller c)) scenario2 = [8, 8, 8, 8, 8, 8]"
    by (simp add: scenario2_def ring2_owner_def ring2_attached_def)
  have cr: "count_reads scenario2 = 3" by (simp add: scenario2_def)
  from C1_fifo[OF ring2_create n hs scenario2_run] ring2_create ring2_attach n hm scenario2_run cr
  show ?thesis by simp
qed

text \<open>
  Claim C2. A call with \<open>len\<close> above the handle's \<^verbatim>\<open>slot_size_\<close> returns \<^verbatim>\<open>false\<close>
  with the shared state, the three semaphores included, exactly as it was, whatever
  the waits would have met: no semaphore is touched. A call with \<open>len\<close> equal to the
  slot size, on a ring created with \<open>slot_count \<ge> 1\<close> and used by calls that returned
  \<^verbatim>\<open>true\<close>, returns \<^verbatim>\<open>true\<close> when both of its waits succeed and the caller's
  buffer holds \<open>len\<close> bytes.
\<close>

theorem C2_length_check:
  "(slot_size_' h < len \<longrightarrow> write_message h ev_free ev_mutex data len s = Returns (False, s)) \<and>
   (create_or_open env name n_slots n_bytes True = Returns (Some (h0, s0)) \<and> n_slots \<noteq> 0 \<and>
    (\<forall>c \<in> set cs. slot_size_' (caller c) = n_bytes) \<and> run_calls cs s0 = Some (outs, s) \<and>
    slot_size_' h = n_bytes \<and> len = n_bytes \<and> unat len \<le> length data \<and>
    sem_wait_intr ev_free (free_val s) = Returns (0, fv) \<and>
    sem_wait_intr ev_mutex (mutex_val s) = Returns (0, mv)
    \<longrightarrow> (\<exists>s'. write_message h ev_free ev_mutex data len s = Returns (True, s')))"
proof (intro conjI impI)
  assume "slot_size_' h < len"
  then show "write_message h ev_free ev_mutex data len s = Returns (False, s)"
    by (simp add: write_message_def)
next
  assume a: "create_or_open env name n_slots n_bytes True = Returns (Some (h0, s0)) \<and> n_slots \<noteq> 0 \<and>
    (\<forall>c \<in> set cs. slot_size_' (caller c) = n_bytes) \<and> run_calls cs s0 = Some (outs, s) \<and>
    slot_size_' h = n_bytes \<and> len = n_bytes \<and> unat len \<le> length data \<and>
    sem_wait_intr ev_free (free_val s) = Returns (0, fv) \<and>
    sem_wait_intr ev_mutex (mutex_val s) = Returns (0, mv)"
  then have c: "create_or_open env name n_slots n_bytes True = Returns (Some (h0, s0))"
    and n0: "n_slots \<noteq> 0" and hs: "\<forall>c \<in> set cs. slot_size_' (caller c) = n_bytes"
    and r: "run_calls cs s0 = Some (outs, s)" and h: "slot_size_' h = n_bytes"
    and len: "len = n_bytes" and data: "unat len \<le> length data"
    and w1: "sem_wait_intr ev_free (free_val s) = Returns (0, fv)"
    and w2: "sem_wait_intr ev_mutex (mutex_val s) = Returns (0, mv)"
    by blast+
  note R = run_from_created[OF c n0 hs r]
  note I = ring_invD[OF R(1)]
  have hh: "slot_size_' h = slot_size (hdr s)" using h R(7) by simp
  have nl: "\<not> slot_size_' h < len" using h len by simp
  from sem_wait_intr_cases[OF w1] I(9)
  have room: "length (drop (count_reads cs) (written cs)) < unat (slot_count (hdr s))" by auto
  from write_slot_inv[OF R(1) hh room nl data, of "s\<lparr>free_val := fv, mutex_val := mv\<rparr>"]
  obtain s3 where ws: "write_slot h data len (s\<lparr>free_val := fv, mutex_val := mv\<rparr>) = Returns s3"
    by simp
  from write_message_TrueI[OF nl w1 w2 ws]
  show "\<exists>s'. write_message h ev_free ev_mutex data len s = Returns (True, s')" by blast
qed

text \<open>
  On the ring of one slot of one byte: two bytes are refused, also when the waits
  could never return; one byte is accepted.
\<close>

theorem C2_length_check_witness:
  "write_message ring1_handle [SemAcquire] [SemAcquire] [0x61, 0x62] 2 ring1_created
     = Returns (False, ring1_created) \<and>
   write_message ring1_handle [] [] [0x61, 0x62] 2 ring1_created = Returns (False, ring1_created) \<and>
   (\<exists>s'. write_message ring1_handle [SemAcquire] [SemAcquire] [0x61] 1 ring1_created
            = Returns (True, s'))"
proof -
  have big: "slot_size_' ring1_handle < 2" by (simp add: ring1_handle_def)
  have r: "run_calls [] ring1_created = Some ([], ring1_created)" by simp
  have w1: "sem_wait_intr [SemAcquire] (free_val ring1_created) = Returns (0, 0)"
    and w2: "sem_wait_intr [SemAcquire] (mutex_val ring1_created) = Returns (0, 0)"
    by (simp_all add: ring1_created_def)
  have hyp: "create_or_open demo_env ''/r'' 1 1 True = Returns (Some (ring1_handle, ring1_created)) \<and>
    (1 :: u32) \<noteq> 0 \<and> (\<forall>c \<in> set []. slot_size_' (caller c) = 1) \<and>
    run_calls [] ring1_created = Some ([], ring1_created) \<and>
    slot_size_' ring1_handle = 1 \<and> (1 :: u32) = 1 \<and> unat (1 :: u32) \<le> length [0x61 :: byte] \<and>
    sem_wait_intr [SemAcquire] (free_val ring1_created) = Returns (0, 0) \<and>
    sem_wait_intr [SemAcquire] (mutex_val ring1_created) = Returns (0, 0)"
    using ring1_create r w1 w2 by (simp add: ring1_handle_def)
  have p1: "write_message ring1_handle [SemAcquire] [SemAcquire] [0x61, 0x62] 2 ring1_created
              = Returns (False, ring1_created)"
    using big by (rule C2_length_check[THEN conjunct1, THEN mp])
  have p2: "write_message ring1_handle [] [] [0x61, 0x62] 2 ring1_created
              = Returns (False, ring1_created)"
    using big by (rule C2_length_check[THEN conjunct1, THEN mp])
  have p3: "\<exists>s'. write_message ring1_handle [SemAcquire] [SemAcquire] [0x61] 1 ring1_created
              = Returns (True, s')"
    using hyp by (rule C2_length_check[THEN conjunct2, THEN mp])
  from p1 p2 p3 show ?thesis by (intro conjI)
qed

text \<open>
  Claim C3, amended. After any sequence of calls that all returned \<^verbatim>\<open>true\<close> on a ring
  created with \<open>slot_count = N \<ge> 1\<close>, with \<open>k\<close> the number of writes minus the number
  of reads: \<open>k \<le> N\<close>, the filled semaphore has value \<open>k\<close>, the free semaphore has
  value \<open>N - k\<close>, and \<open>(tail - head) mod N\<close> equals \<open>k mod N\<close>, which is \<open>k\<close> below
  \<open>N\<close> and 0 when the ring is full.
\<close>

theorem C3_counts:
  assumes "create_or_open env name n_slots n_bytes True = Returns (Some (h0, s0))"
    and "n_slots \<noteq> 0"
    and "\<forall>c \<in> set cs. slot_size_' (caller c) = n_bytes"
    and "run_calls cs s0 = Some (outs, s)"
  shows "count_reads cs \<le> count_writes cs \<and>
         count_writes cs - count_reads cs \<le> unat n_slots \<and>
         filled_val s = count_writes cs - count_reads cs \<and>
         free_val s = unat n_slots - (count_writes cs - count_reads cs) \<and>
         (int (unat (tail (hdr s))) - int (unat (head (hdr s)))) mod int (unat n_slots)
           = int (count_writes cs - count_reads cs) mod int (unat n_slots)"
proof -
  note R = run_from_created[OF assms]
  let ?q = "drop (count_reads cs) (written cs)"
  have lq: "length ?q = count_writes cs - count_reads cs" using R(5) by simp
  note I = ring_invD[OF R(1)]
  have N: "unat (slot_count (hdr s)) = unat n_slots" using R(6) by simp
  have a: "count_writes cs - count_reads cs \<le> unat n_slots" using I(6) lq N by simp
  have b: "filled_val s = count_writes cs - count_reads cs" using I(8) lq by simp
  have c: "free_val s = unat n_slots - (count_writes cs - count_reads cs)" using I(9) lq N by simp
  have "unat (tail (hdr s)) = (unat (head (hdr s)) + (count_writes cs - count_reads cs)) mod unat n_slots"
    using I(7) lq N by simp
  then have d: "(int (unat (tail (hdr s))) - int (unat (head (hdr s)))) mod int (unat n_slots)
           = int (count_writes cs - count_reads cs) mod int (unat n_slots)"
    by (rule tail_head_mod)
  show ?thesis by (intro conjI R(4) a b c d)
qed

text \<open>
  After \<^verbatim>\<open>"a"\<close>, \<^verbatim>\<open>"bb"\<close> and one read on the ring of two slots: one message is
  left, \<open>head = 1\<close> and \<open>tail = 0\<close>.
\<close>

theorem C3_counts_witness:
  "create_or_open demo_env ''/ring_t2'' 2 8 True = Returns (Some (ring2_owner, ring2_created)) \<and>
   run_calls scenario2_start ring2_created = Some ([[0x61]], ring2_after_read) \<and>
   count_writes scenario2_start = 2 \<and> count_reads scenario2_start = 1 \<and>
   filled_val ring2_after_read = 1 \<and> free_val ring2_after_read = 1 \<and>
   head (hdr ring2_after_read) = 1 \<and> tail (hdr ring2_after_read) = 0 \<and>
   (int (unat (tail (hdr ring2_after_read))) - int (unat (head (hdr ring2_after_read)))) mod 2 = 1"
proof -
  have n: "(2 :: u32) \<noteq> 0" by simp
  have hs: "\<forall>c \<in> set scenario2_start. slot_size_' (caller c) = 8"
    by (simp add: scenario2_start_def scenario2_def ring2_owner_def ring2_attached_def)
  have cw: "count_writes scenario2_start = 2" and cr: "count_reads scenario2_start = 1"
    by (simp_all add: scenario2_start_def scenario2_def)
  have ht: "head (hdr ring2_after_read) = 1" "tail (hdr ring2_after_read) = 0"
    by (simp_all add: ring2_after_read_def)
  from C3_counts[OF ring2_create n hs scenario2_start_run] ring2_create scenario2_start_run cw cr ht
  show ?thesis by simp
qed

text \<open>
  The claim as stated fails on a full ring: with one slot and one unread write the
  filled semaphore is 1 while \<open>head = tail = 0\<close>, so \<open>(tail - head) mod N\<close> is 0.
\<close>

theorem C3_full_ring_counterexample:
  "create_or_open demo_env ''/r'' 1 1 True = Returns (Some (ring1_handle, ring1_created)) \<and>
   run_calls [Write ring1_handle [0x61] 1 [SemAcquire] [SemAcquire]] ring1_created
     = Some ([], ring1_full) \<and>
   filled_val ring1_full = 1 \<and> free_val ring1_full = 0 \<and>
   (int (unat (tail (hdr ring1_full))) - int (unat (head (hdr ring1_full)))) mod int (unat (1 :: u32))
     \<noteq> 1"
  using ring1_create ring1_write by (simp add: ring1_full_def)

text \<open>
  Claim C4. The two versions are not equal. The earlier version tests
  \<^verbatim>\<open>!sem_wait_intr(...)\<close>, which holds when the wait succeeded: on a fresh ring, with
  every wait succeeding at once, the annotated \<^verbatim>\<open>write_message\<close> stores the message
  and returns \<^verbatim>\<open>true\<close>, the earlier one takes the free token and returns
  \<^verbatim>\<open>false\<close>; likewise for \<^verbatim>\<open>read_message\<close> on the ring that holds one message.
\<close>

theorem C4_part001_differs:
  "write_message ring1_handle [SemAcquire] [SemAcquire] [0x61] 1 ring1_created
     = Returns (True, ring1_full) \<and>
   write_message_part001 ring1_handle [SemAcquire] [SemAcquire] [0x61] 1 ring1_created
     = Returns (False, ring1_created\<lparr>free_val := 0\<rparr>) \<and>
   read_message ring1_handle [SemAcquire] [SemAcquire] [] ring1_full
     = Returns (True, [0x61], ring1_full\<lparr>free_val := 1, filled_val := 0\<rparr>) \<and>
   read_message_part001 ring1_handle [SemAcquire] [SemAcquire] [] ring1_full
     = Returns (False, [], ring1_full\<lparr>filled_val := 0\<rparr>)"
  using ring1_write ring1_write_part001 ring1_read ring1_read_part001 by simp

text \<open>
  Claim C5, amended. The daemon knows the command \<^verbatim>\<open>REGISTER\<close> only. Every other
  non-empty datagram, \<^verbatim>\<open>DEREGISTER\<close> included, is logged as an unrecognised request
  and ignored: the registry is unchanged and nothing is sent.
\<close>

theorem C5_unknown_ignored:
  assumes "raw \<noteq> []" and "request_cmd raw \<noteq> ''REGISTER''"
  shows "daemon_step raw reg = (reg, [], [''unrecognised request: '' @ request_msg raw])"
  using assms
  by (cases "extract_token (takeWhile (\<lambda>c. c \<noteq> CHR 0x00) (take 1023 raw))")
     (simp add: daemon_step_def request_cmd_def request_msg_def Let_def)

theorem C5_unknown_ignored_witness:
  "''DEREGISTER demo /tmp/p.sock /r1'' \<noteq> [] \<and>
   request_cmd ''DEREGISTER demo /tmp/p.sock /r1'' = ''DEREGISTER'' \<and>
   daemon_step ''DEREGISTER demo /tmp/p.sock /r1'' demo_registry =
     (demo_registry, [], [''unrecognised request: DEREGISTER demo /tmp/p.sock /r1''])"
proof -
  have a: "''DEREGISTER demo /tmp/p.sock /r1'' \<noteq> []" by simp
  have c: "request_cmd ''DEREGISTER demo /tmp/p.sock /r1'' = ''DEREGISTER''"
    by (simp add: request_cmd_def request_msg_def extract_token_def isspace_def)
  then have b: "request_cmd ''DEREGISTER demo /tmp/p.sock /r1'' \<noteq> ''REGISTER''" by simp
  have m: "request_msg ''DEREGISTER demo /tmp/p.sock /r1'' = ''DEREGISTER demo /tmp/p.sock /r1''"
    by (simp add: request_msg_def)
  from C5_unknown_ignored[OF a b, of demo_registry] a c m show ?thesis by simp
qed

text \<open>
  The claim as stated fails: after \<^verbatim>\<open>DEREGISTER demo /tmp/p.sock /r1\<close> the matching
  record is still registered under \<^verbatim>\<open>demo\<close>.
\<close>

theorem C5_deregister_counterexample:
  "fst (daemon_step ''DEREGISTER demo /tmp/p.sock /r1'' demo_registry) ''demo''
     = Some [\<lparr>sock = ''/tmp/p.sock'', shm = ''/r1''\<rparr>]"
  by (simp add: daemon_step_def extract_token_def isspace_def demo_registry_def Let_def)

text \<open>
  Claim C6, amended. For a ring name \<open>R\<close> the three semaphore names of a handle are
  \<^verbatim>\<open>"/"\<close> followed by \<open>R\<close> with every \<^verbatim>\<open>'/'\<close> replaced by \<^verbatim>\<open>'_'\<close>, the leading one
  included, followed by \<^verbatim>\<open>_free\<close>, \<^verbatim>\<open>_filled\<close> and \<^verbatim>\<open>_mutex\<close>: each name has
  exactly one \<^verbatim>\<open>'/'\<close>, in front.
\<close>

theorem C6_sem_names:
  assumes "create_or_open env R n_slots n_bytes create = Returns (Some (h, st))"
  shows "sem_free_name_' h = ''/'' @ map slash_to_underscore R @ ''_free'' \<and>
         sem_filled_name_' h = ''/'' @ map slash_to_underscore R @ ''_filled'' \<and>
         sem_mutex_name_' h = ''/'' @ map slash_to_underscore R @ ''_mutex'' \<and>
         CHR ''/'' \<notin> set (map slash_to_underscore R)"
  using create_or_open_names[OF assms]
  by (auto simp: sanitize_sem_def slash_to_underscore_def)

text \<open>
  For \<open>R\<close> = \<^verbatim>\<open>/ipc_demo_1234\<close> the free semaphore is \<^verbatim>\<open>/_ipc_demo_1234_free\<close>.
\<close>

theorem C6_sem_names_witness:
  "create_or_open demo_env ''/ipc_demo_1234'' 8 256 True
     = Returns (Some (ipc_demo_handle, ipc_demo_created)) \<and>
   sem_free_name_' ipc_demo_handle = ''/_ipc_demo_1234_free'' \<and>
   sem_filled_name_' ipc_demo_handle = ''/_ipc_demo_1234_filled'' \<and>
   sem_mutex_name_' ipc_demo_handle = ''/_ipc_demo_1234_mutex''"
  using C6_sem_names[OF ipc_demo_create] ipc_demo_create
  by (simp add: slash_to_underscore_def)

text \<open>
  The claim as stated fails on its own example: the name is not
  \<^verbatim>\<open>/ipc_demo_1234_free\<close>.
\<close>

theorem C6_leading_slash_counterexample:
  "create_or_open demo_env ''/ipc_demo_1234'' 8 256 True
     = Returns (Some (ipc_demo_handle, ipc_demo_created)) \<and>
   sem_free_name_' ipc_demo_handle \<noteq> ''/ipc_demo_1234_free''"
  using ipc_demo_create by (simp add: ipc_demo_handle_def)

text \<open>
  Claim C7, amended. A process attaches, and \<^verbatim>\<open>shm_open\<close> and \<^verbatim>\<open>fstat\<close> succeed. In
  the annotated version, for a request whose total
  \<open>sizeof(header) + slot_count * (4 + slot_size)\<close> is below \<open>2^64\<close>, \<^verbatim>\<open>init_map\<close> fails
  with \<^verbatim>\<open>"shm too small"\<close> exactly when the region is smaller than that total, and
  \<^verbatim>\<open>create_or_open\<close> then returns no handle. In the earlier version \<^verbatim>\<open>init_map\<close> fails
  with \<^verbatim>\<open>"shm too small"\<close> exactly when the region is smaller than the header, and
  \<^verbatim>\<open>create_or_open\<close> then returns no handle.
\<close>

theorem C7_attach_size_check:
  assumes "0 \<le> shm_open_ret env" and "fstat_ret env = 0"
  shows "(sizeof_RingHeader + unat n_slots * (sizeof_uint32 + unat n_bytes) < 2 ^ 64 \<longrightarrow>
            (init_map env False (new_handle name n_slots n_bytes False) = Returns (Inl ShmTooSmall))
              = (st_size env < sizeof_RingHeader + unat n_slots * (sizeof_uint32 + unat n_bytes)) \<and>
            (st_size env < sizeof_RingHeader + unat n_slots * (sizeof_uint32 + unat n_bytes) \<longrightarrow>
               create_or_open env name n_slots n_bytes False = Returns None)) \<and>
         (init_map_part001 env False (new_handle name n_slots n_bytes False) = Returns (Inl ShmTooSmall))
           = (st_size env < sizeof_RingHeader) \<and>
         (st_size env < sizeof_RingHeader \<longrightarrow>
            create_or_open_part001 env name n_slots n_bytes False = Returns None)"
proof (intro conjI impI)
  assume lt: "sizeof_RingHeader + unat n_slots * (sizeof_uint32 + unat n_bytes) < 2 ^ 64"
  show "(init_map env False (new_handle name n_slots n_bytes False) = Returns (Inl ShmTooSmall))
          = (st_size env < sizeof_RingHeader + unat n_slots * (sizeof_uint32 + unat n_bytes))"
    using init_map_too_small_iff[OF assms, of name n_slots n_bytes] total_exact[OF lt] by simp
next
  assume lt: "sizeof_RingHeader + unat n_slots * (sizeof_uint32 + unat n_bytes) < 2 ^ 64"
    and small: "st_size env < sizeof_RingHeader + unat n_slots * (sizeof_uint32 + unat n_bytes)"
  from small have "st_size env
      < size_t (sizeof_RingHeader + size_t (unat n_slots * size_t (sizeof_uint32 + unat n_bytes)))"
    unfolding total_exact[OF lt] .
  then show "create_or_open env name n_slots n_bytes False = Returns None"
    by (rule attach_too_small)
next
  show "(init_map_part001 env False (new_handle name n_slots n_bytes False) = Returns (Inl ShmTooSmall))
          = (st_size env < sizeof_RingHeader)"
    using assms by (rule init_map_part001_too_small_iff)
next
  assume "st_size env < sizeof_RingHeader"
  then show "create_or_open_part001 env name n_slots n_bytes False = Returns None"
    by (rule attach_too_small_part001)
qed

text \<open>
  A region of 52 bytes, just a header, when one slot of one byte is asked for (57
  bytes): the annotated version reports \<^verbatim>\<open>"shm too small"\<close>. A region of 51 bytes: the
  earlier version reports it.
\<close>

theorem C7_attach_size_check_witness:
  "0 \<le> shm_open_ret (attach_env 52 ring0_created) \<and> fstat_ret (attach_env 52 ring0_created) = 0 \<and>
   sizeof_RingHeader + unat (1 :: u32) * (sizeof_uint32 + unat (1 :: u32)) = 57 \<and>
   st_size (attach_env 52 ring0_created) = 52 \<and>
   init_map (attach_env 52 ring0_created) False (new_handle ''/r'' 1 1 False)
     = Returns (Inl ShmTooSmall) \<and>
   create_or_open (attach_env 52 ring0_created) ''/r'' 1 1 False = Returns None \<and>
   0 \<le> shm_open_ret (attach_env 51 ring0_created) \<and> fstat_ret (attach_env 51 ring0_created) = 0 \<and>
   st_size (attach_env 51 ring0_created) < sizeof_RingHeader \<and>
   init_map_part001 (attach_env 51 ring0_created) False (new_handle ''/r'' 1 1 False)
     = Returns (Inl ShmTooSmall) \<and>
   create_or_open_part001 (attach_env 51 ring0_created) ''/r'' 1 1 False = Returns None"
proof -
  have o: "0 \<le> shm_open_ret (attach_env 52 ring0_created)"
    and f: "fstat_ret (attach_env 52 ring0_created) = 0"
    and o': "0 \<le> shm_open_ret (attach_env 51 ring0_created)"
    and f': "fstat_ret (attach_env 51 ring0_created) = 0"
    by (simp_all add: attach_env_def demo_env_def)
  have t: "sizeof_RingHeader + unat (1 :: u32) * (sizeof_uint32 + unat (1 :: u32)) = 57"
    by (simp add: sizeof_RingHeader_def sizeof_uint32_def)
  have t64: "sizeof_RingHeader + unat (1 :: u32) * (sizeof_uint32 + unat (1 :: u32)) < 2 ^ 64"
    unfolding t by simp
  have sz: "st_size (attach_env 52 ring0_created) = 52" by (simp add: attach_env_def)
  have small: "st_size (attach_env 52 ring0_created)
                 < sizeof_RingHeader + unat (1 :: u32) * (sizeof_uint32 + unat (1 :: u32))"
    unfolding t sz by simp
  note A = C7_attach_size_check[OF o f, of 1 1 "''/r''", THEN conjunct1, THEN mp, OF t64]
  have a: "init_map (attach_env 52 ring0_created) False (new_handle ''/r'' 1 1 False)
             = Returns (Inl ShmTooSmall)"
    using A[THEN conjunct1] small by simp
  have b: "create_or_open (attach_env 52 ring0_created) ''/r'' 1 1 False = Returns None"
    using small by (rule A[THEN conjunct2, THEN mp])
  have c: "st_size (attach_env 51 ring0_created) < sizeof_RingHeader"
    by (simp add: attach_env_def sizeof_RingHeader_def)
  note B = C7_attach_size_check[OF o' f', of 1 1 "''/r''", THEN conjunct2]
  have d: "init_map_part001 (attach_env 51 ring0_created) False (new_handle ''/r'' 1 1 False)
             = Returns (Inl ShmTooSmall)"
    using B[THEN conjunct1] c by simp
  have e: "create_or_open_part001 (attach_env 51 ring0_created) ''/r'' 1 1 False = Returns None"
    using c by (rule B[THEN conjunct2, THEN mp])
  from o f t sz a b o' f' c d e show ?thesis by (intro conjI)
qed

text \<open>
  The claim as stated fails in the earlier version, which does not compare the region
  with the total: it attaches to a region of 52 bytes when 57 are asked for.
\<close>

theorem C7_attach_size_counterexample:
  "st_size (attach_env 52 ring0_created)
     < sizeof_RingHeader + unat (1 :: u32) * (sizeof_uint32 + unat (1 :: u32)) \<and>
   create_or_open_part001 (attach_env 52 ring0_created) ''/r'' 1 1 False
     = Returns (Some (ring0_handle\<lparr>owner_' := False\<rparr>, ring0_created))"
  by (simp add: eval_defs ring0_handle_def ring0_created_def)

text \<open>
  Claim C8, amended. On \<^verbatim>\<open>REGISTER key addr ring\<close> with \<open>k\<close> participants registered
  under \<open>key\<close>, the daemon first sends \<open>k\<close> datagrams to \<open>addr\<close>, one per participant in
  registration order and describing it, then appends the new participant, then sends
  one datagram describing the new participant to every earlier participant whose
  address differs from \<open>addr\<close>, and to nobody else. Addresses are cut to 107 bytes.
\<close>

theorem C8_register:
  assumes "parse_register raw = Some (key, client_sock, shm_name)"
  shows "daemon_step raw reg =
           (reg(key \<mapsto> registered reg key @ [\<lparr>sock = client_sock, shm = shm_name\<rparr>]),
            map (\<lambda>p. \<lparr>dest = sun_path client_sock, payload = peer_msg key (sock p) (shm p)\<rparr>)
                (registered reg key) @
            map (\<lambda>p. \<lparr>dest = sun_path (sock p), payload = peer_msg key client_sock shm_name\<rparr>)
                (filter (\<lambda>p. sock p \<noteq> client_sock) (registered reg key)),
            [''REGISTER: '' @ key @ '' '' @ client_sock @ '' '' @ shm_name])"
  using assms
  by (auto simp: parse_register_def daemon_step_def request_msg_def registered_def Let_def
           split: prod.splits if_splits)

theorem C8_register_witness:
  "parse_register ''REGISTER demo /tmp/c.sock -'' = Some (''demo'', ''/tmp/c.sock'', ''-'') \<and>
   registered demo_registry ''demo'' = [\<lparr>sock = ''/tmp/p.sock'', shm = ''/r1''\<rparr>] \<and>
   fst (daemon_step ''REGISTER demo /tmp/c.sock -'' demo_registry) ''demo''
     = Some [\<lparr>sock = ''/tmp/p.sock'', shm = ''/r1''\<rparr>, \<lparr>sock = ''/tmp/c.sock'', shm = ''-''\<rparr>] \<and>
   fst (snd (daemon_step ''REGISTER demo /tmp/c.sock -'' demo_registry))
     = [\<lparr>dest = ''/tmp/c.sock'', payload = ''PEER demo /tmp/p.sock /r1''\<rparr>,
        \<lparr>dest = ''/tmp/p.sock'', payload = ''PEER demo /tmp/c.sock -''\<rparr>]"
proof -
  have p: "parse_register ''REGISTER demo /tmp/c.sock -'' = Some (''demo'', ''/tmp/c.sock'', ''-'')"
    by (simp add: parse_register_def request_msg_def extract_token_def isspace_def)
  have r: "registered demo_registry ''demo'' = [\<lparr>sock = ''/tmp/p.sock'', shm = ''/r1''\<rparr>]"
    by (simp add: registered_def demo_registry_def)
  from C8_register[OF p, of demo_registry] p r show ?thesis
    by (simp add: sun_path_def peer_msg_def)
qed

text \<open>
  The claim as stated fails when a participant with the new client's address is
  already registered: one participant is there, and the only datagram sent is the
  reply to the client.
\<close>

theorem C8_same_address_counterexample:
  "parse_register ''REGISTER demo /tmp/p.sock /r1'' = Some (''demo'', ''/tmp/p.sock'', ''/r1'') \<and>
   registered demo_registry ''demo'' = [\<lparr>sock = ''/tmp/p.sock'', shm = ''/r1''\<rparr>] \<and>
   fst (snd (daemon_step ''REGISTER demo /tmp/p.sock /r1'' demo_registry))
     = [\<lparr>dest = ''/tmp/p.sock'', payload = ''PEER demo /tmp/p.sock /r1''\<rparr>]"
  by (simp add: parse_register_def request_msg_def extract_token_def isspace_def registered_def
      demo_registry_def daemon_step_def sun_path_def peer_msg_def Let_def)

text \<open>
  Claim C9. When the length is accepted, the wait on the free semaphore succeeds and
  the wait on the mutex returns \<open>-1\<close> (an error other than a signal, since signals are
  retried), \<^verbatim>\<open>write_message\<close> returns \<^verbatim>\<open>false\<close> and the only change to the shared
  state is that the free semaphore is one less.
\<close>

theorem C9_free_not_restored:
  assumes "\<not> slot_size_' h < len"
    and "sem_wait_intr ev_free (free_val s) = Returns (0, fv)"
    and "sem_wait_intr ev_mutex (mutex_val s) = Returns (- 1, mv)"
  shows "0 < free_val s \<and>
         write_message h ev_free ev_mutex data len s = Returns (False, s\<lparr>free_val := free_val s - 1\<rparr>)"
proof -
  from sem_wait_intr_cases[OF assms(2)] have f: "0 < free_val s" "fv = free_val s - 1" by auto
  from sem_wait_intr_cases[OF assms(3)] have m: "mv = mutex_val s" by auto
  show ?thesis using assms f m by (simp add: write_message_def Let_def)
qed

theorem C9_free_not_restored_witness:
  "\<not> slot_size_' ring1_handle < 1 \<and>
   sem_wait_intr [SemSignal, SemAcquire] (free_val ring1_created) = Returns (0, 0) \<and>
   sem_wait_intr [SemSignal, SemError] (mutex_val ring1_created) = Returns (- 1, 1) \<and>
   write_message ring1_handle [SemSignal, SemAcquire] [SemSignal, SemError] [0x61] 1 ring1_created
     = Returns (False, ring1_created\<lparr>free_val := 0\<rparr>)"
proof -
  have a: "\<not> slot_size_' ring1_handle < 1" by (simp add: ring1_handle_def)
  have b: "sem_wait_intr [SemSignal, SemAcquire] (free_val ring1_created) = Returns (0, 0)"
    by (simp add: ring1_created_def)
  have c: "sem_wait_intr [SemSignal, SemError] (mutex_val ring1_created) = Returns (- 1, 1)"
    by (simp add: ring1_created_def)
  have d: "free_val ring1_created - 1 = 0" by (simp add: ring1_created_def)
  from C9_free_not_restored[OF a b c, of "[0x61]"] a b c d show ?thesis by simp
qed

text \<open>
  Claim C10, amended. \<^verbatim>\<open>create_or_open\<close> does not validate \<^verbatim>\<open>slot_count\<close>: with
  \<open>slot_count = 0\<close> and an operating system that grants every call it returns a
  handle to a ring whose free and filled semaphores are both 0. On that ring
  \<^verbatim>\<open>write_message\<close> and \<^verbatim>\<open>read_message\<close> never get past their first wait: they
  block, or return \<^verbatim>\<open>false\<close> with the ring unchanged, so the modulo is not evaluated.
  A ring created with \<open>slot_count \<ge> 1\<close> starts with \<open>head\<close> and \<open>tail\<close> below
  \<open>slot_count\<close>, and in a ring where they are below it they are still below it after
  every call that returns.
\<close>

theorem C10_zero_slots:
  "(os_ok env \<longrightarrow>
      (\<exists>h s0. create_or_open env name 0 n_bytes True = Returns (Some (h, s0)) \<and>
         slot_count (hdr s0) = 0 \<and> free_val s0 = 0 \<and> filled_val s0 = 0 \<and>
         (\<forall>ef em data len.
            write_message h ef em data len s0 = Blocks \<or>
            write_message h ef em data len s0 = Returns (False, s0)) \<and>
         (\<forall>ef em out0.
            read_message h ef em out0 s0 = Blocks \<or>
            read_message h ef em out0 s0 = Returns (False, out0, s0)))) \<and>
   (create_or_open env name n_slots n_bytes True = Returns (Some (h0, s0)) \<and> n_slots \<noteq> 0 \<longrightarrow>
      slot_count (hdr s0) = n_slots \<and> head (hdr s0) < slot_count (hdr s0) \<and>
      tail (hdr s0) < slot_count (hdr s0)) \<and>
   (slot_count (hdr s) \<noteq> 0 \<and> head (hdr s) < slot_count (hdr s) \<and>
    tail (hdr s) < slot_count (hdr s) \<longrightarrow>
      (\<forall>h ef em data len b s'.
         write_message h ef em data len s = Returns (b, s') \<longrightarrow>
           slot_count (hdr s') = slot_count (hdr s) \<and>
           head (hdr s') < slot_count (hdr s') \<and> tail (hdr s') < slot_count (hdr s')) \<and>
      (\<forall>h ef em out0 b out s'.
         read_message h ef em out0 s = Returns (b, out, s') \<longrightarrow>
           slot_count (hdr s') = slot_count (hdr s) \<and>
           head (hdr s') < slot_count (hdr s') \<and> tail (hdr s') < slot_count (hdr s')))"
proof -
  have base: "slot_count (hdr s0) = n_slots \<and> head (hdr s0) < slot_count (hdr s0) \<and>
      tail (hdr s0) < slot_count (hdr s0)"
    if "create_or_open env name n_slots n_bytes True = Returns (Some (h0, s0)) \<and> n_slots \<noteq> 0"
    using created_indices[of env name n_slots n_bytes h0 s0] that
    by (simp add: word_neq_0_conv)
  show ?thesis
    using zero_slots_step[of env name n_bytes s] base by blast
qed

theorem C10_zero_slots_witness:
  "os_ok demo_env \<and>
   create_or_open demo_env ''/r'' 0 1 True = Returns (Some (ring0_handle, ring0_created)) \<and>
   write_message ring0_handle [SemSignal, SemError] [SemAcquire] [0x61] 1 ring0_created
     = Returns (False, ring0_created) \<and>
   read_message ring0_handle [SemSignal, SemError] [SemAcquire] [] ring0_created
     = Returns (False, [], ring0_created) \<and>
   write_message ring2_owner [SemAcquire] [SemAcquire] [0x63, 0x63, 0x63] 3 ring2_after_read
     = Returns (True, ring2_after_read\<lparr>
         hdr := (hdr ring2_after_read)\<lparr>tail := 1\<rparr>,
         slot_area := [3, 0, 0, 0, 0x63, 0x63, 0x63, 0, 0, 0, 0, 0,
                       2, 0, 0, 0, 0x62, 0x62, 0, 0, 0, 0, 0, 0],
         free_val := 0, filled_val := 2\<rparr>) \<and>
   tail ((hdr ring2_after_read)\<lparr>tail := 1\<rparr>) < slot_count (hdr ring2_after_read) \<and>
   create_or_open demo_env ''/ring_t2'' 2 8 True = Returns (Some (ring2_owner, ring2_created)) \<and>
   head (hdr ring2_created) < slot_count (hdr ring2_created) \<and>
   tail (hdr ring2_created) < slot_count (hdr ring2_created)"
proof -
  have n2: "create_or_open demo_env ''/ring_t2'' 2 8 True = Returns (Some (ring2_owner, ring2_created)) \<and>
            (2 :: u32) \<noteq> 0"
    using ring2_create by simp
  from C10_zero_slots[THEN conjunct2, THEN conjunct1, THEN mp, OF n2]
  have b: "head (hdr ring2_created) < slot_count (hdr ring2_created)"
    "tail (hdr ring2_created) < slot_count (hdr ring2_created)"
    by blast+
  from C10_zero_slots[of demo_env "''/r''" 1, THEN conjunct1, THEN mp, OF demo_env_ok] ring0_create
  have w: "write_message ring0_handle [SemSignal, SemError] [SemAcquire] [0x61] 1 ring0_created = Blocks \<or>
           write_message ring0_handle [SemSignal, SemError] [SemAcquire] [0x61] 1 ring0_created
             = Returns (False, ring0_created)"
    and r: "read_message ring0_handle [SemSignal, SemError] [SemAcquire] [] ring0_created = Blocks \<or>
           read_message ring0_handle [SemSignal, SemError] [SemAcquire] [] ring0_created
             = Returns (False, [], ring0_created)"
    by auto
  have wn: "write_message ring0_handle [SemSignal, SemError] [SemAcquire] [0x61] 1 ring0_created \<noteq> Blocks"
    by (simp add: eval_defs ring0_handle_def ring0_created_def)
  have rn: "read_message ring0_handle [SemSignal, SemError] [SemAcquire] [] ring0_created \<noteq> Blocks"
    by (simp add: eval_defs ring0_handle_def ring0_created_def)
  have pre: "slot_count (hdr ring2_after_read) \<noteq> 0 \<and>
     head (hdr ring2_after_read) < slot_count (hdr ring2_after_read) \<and>
     tail (hdr ring2_after_read) < slot_count (hdr ring2_after_read)"
    by (simp add: ring2_after_read_def)
  have wr: "write_message ring2_owner [SemAcquire] [SemAcquire] [0x63, 0x63, 0x63] 3 ring2_after_read
     = Returns (True, ring2_after_read\<lparr>
         hdr := (hdr ring2_after_read)\<lparr>tail := 1\<rparr>,
         slot_area := [3, 0, 0, 0, 0x63, 0x63, 0x63, 0, 0, 0, 0, 0,
                       2, 0, 0, 0, 0x62, 0x62, 0, 0, 0, 0, 0, 0],
         free_val := 0, filled_val := 2\<rparr>)"
    by (simp add: eval_defs ring2_owner_def ring2_after_read_def)
  from C10_zero_slots[where s = ring2_after_read, THEN conjunct2, THEN conjunct2, THEN mp, OF pre] wr
  have "tail (hdr (ring2_after_read\<lparr>
         hdr := (hdr ring2_after_read)\<lparr>tail := 1\<rparr>,
         slot_area := [3, 0, 0, 0, 0x63, 0x63, 0x63, 0, 0, 0, 0, 0,
                       2, 0, 0, 0, 0x62, 0x62, 0, 0, 0, 0, 0, 0],
         free_val := 0, filled_val := 2\<rparr>))
        < slot_count (hdr (ring2_after_read\<lparr>
         hdr := (hdr ring2_after_read)\<lparr>tail := 1\<rparr>,
         slot_area := [3, 0, 0, 0, 0x63, 0x63, 0x63, 0, 0, 0, 0, 0,
                       2, 0, 0, 0, 0x62, 0x62, 0, 0, 0, 0, 0, 0],
         free_val := 0, filled_val := 2\<rparr>))"
    by blast
  then have t: "tail ((hdr ring2_after_read)\<lparr>tail := 1\<rparr>) < slot_count (hdr ring2_after_read)"
    by simp
  from demo_env_ok ring0_create w wn r rn wr t ring2_create b show ?thesis by simp
qed

text \<open>
  The claim as stated fails: on the ring created with \<open>slot_count = 0\<close>, calls whose
  waits would take a token as soon as there is one do not reach the modulo, they
  block.
\<close>

theorem C10_modulo_not_reached_counterexample:
  "create_or_open demo_env ''/r'' 0 1 True = Returns (Some (ring0_handle, ring0_created)) \<and>
   write_message ring0_handle [SemAcquire] [SemAcquire] [0x61] 1 ring0_created = Blocks \<and>
   read_message ring0_handle [SemAcquire] [SemAcquire] [] ring0_created = Blocks"
  using ring0_create ring0_write ring0_read by simp

end
